theory Spec2Isabelle
  imports Main "HOL-Library.Monad_Syntax"
begin

section \<open>The parsed tree: \<open>yaml.Node\<close>\<close>

text \<open>
  Both validators walk the tree that \<open>yaml.Unmarshal\<close> builds. Of the fields of
  \<open>yaml.Node\<close> they read \<open>Kind\<close>, \<open>Tag\<close>, \<open>Value\<close>, \<open>Line\<close> and \<open>Content\<close>.
  A mapping node holds its keys and values alternately in \<open>Content\<close>. Strings are Go
  strings: lists of bytes. \<open>Line\<close> is a Go \<open>int\<close>; it is only compared and printed.
\<close>

datatype kind = DocumentNode | SequenceNode | MappingNode | ScalarNode | AliasNode

datatype node = Node (Kind: kind) (Tag: string) (Value: string) (Line: int) (Content: "node list")

text \<open>All nodes of a tree, the root first.\<close>

fun subnodes :: "node \<Rightarrow> node list" where
  "subnodes (Node k t v l cs) = Node k t v l cs # concat (map subnodes cs)"

text \<open>
  What the parser guarantees and the validators rely on: a mapping has as many values as
  keys. On a mapping with a dangling key the loops below read \<open>Content[i+1]\<close> out of range.
\<close>

fun wf_node :: "node \<Rightarrow> bool" where
  "wf_node (Node k t v l cs) = ((k = MappingNode \<longrightarrow> even (length cs)) \<and> list_all wf_node cs)"

section \<open>The library functions the validators call\<close>

subsection \<open>Package \<open>strings\<close>\<close>

definition HasPrefix :: "string \<Rightarrow> string \<Rightarrow> bool" where
  "HasPrefix s p = (take (length p) s = p)"

text \<open>\<open>strings.Contains\<close> and \<open>strings.LastIndex\<close> are called with one-byte substrings only.\<close>

definition Contains :: "string \<Rightarrow> char \<Rightarrow> bool" where
  "Contains s c = (c \<in> set s)"

definition LastIndex :: "string \<Rightarrow> char \<Rightarrow> int" where
  "LastIndex s c =
     (if c \<in> set s then int (length s) - 1 - int (length (takeWhile (\<lambda>x. x \<noteq> c) (rev s)))
      else - 1)"

text \<open>The slice \<open>s[i:]\<close>, for \<open>0 \<le> i \<le> len(s)\<close>.\<close>

definition slice_from :: "string \<Rightarrow> int \<Rightarrow> string" where
  "slice_from s i = drop (nat i) s"

text \<open>
  \<open>strings.TrimSpace\<close> removes the leading and trailing runes that \<open>unicode.IsSpace\<close>
  accepts. These are their UTF-8 encodings: tab, line feed, vertical tab, form feed,
  carriage return, space, U+0085, U+00A0, U+1680, U+2000 to U+200A, U+2028, U+2029, U+202F,
  U+205F and U+3000.
\<close>

definition space_runes :: "string list" where
  "space_runes =
     [[CHR 0x09], [CHR 0x0A], [CHR 0x0B], [CHR 0x0C], [CHR 0x0D], [CHR 0x20],
      [CHR 0xC2, CHR 0x85], [CHR 0xC2, CHR 0xA0], [CHR 0xE1, CHR 0x9A, CHR 0x80],
      [CHR 0xE2, CHR 0x80, CHR 0x80], [CHR 0xE2, CHR 0x80, CHR 0x81],
      [CHR 0xE2, CHR 0x80, CHR 0x82], [CHR 0xE2, CHR 0x80, CHR 0x83],
      [CHR 0xE2, CHR 0x80, CHR 0x84], [CHR 0xE2, CHR 0x80, CHR 0x85],
      [CHR 0xE2, CHR 0x80, CHR 0x86], [CHR 0xE2, CHR 0x80, CHR 0x87],
      [CHR 0xE2, CHR 0x80, CHR 0x88], [CHR 0xE2, CHR 0x80, CHR 0x89],
      [CHR 0xE2, CHR 0x80, CHR 0x8A], [CHR 0xE2, CHR 0x80, CHR 0xA8],
      [CHR 0xE2, CHR 0x80, CHR 0xA9], [CHR 0xE2, CHR 0x80, CHR 0xAF],
      [CHR 0xE2, CHR 0x81, CHR 0x9F], [CHR 0xE3, CHR 0x80, CHR 0x80]]"

text \<open>Removes from the front of \<open>s\<close> every byte sequence of \<open>ws\<close>, as long as one is there.\<close>

function trim_runes :: "string list \<Rightarrow> string \<Rightarrow> string" where
  "trim_runes ws s =
     (case find (\<lambda>w. w \<noteq> [] \<and> HasPrefix s w) ws of
        None \<Rightarrow> s
      | Some w \<Rightarrow> trim_runes ws (drop (length w) s))"
  by pat_completeness auto
termination
proof (relation "measure (\<lambda>(ws, s). length s)")
  show "wf (measure (\<lambda>(ws, s). length s))" by simp
next
  fix ws :: "string list" and s w :: string
  assume "find (\<lambda>w. w \<noteq> [] \<and> HasPrefix s w) ws = Some w"
  then have "w \<noteq> []" and "HasPrefix s w"
    by (auto simp: find_Some_iff)
  then have "s \<noteq> []"
    by (auto simp: HasPrefix_def)
  with \<open>w \<noteq> []\<close> show "((ws, drop (length w) s), (ws, s)) \<in> measure (\<lambda>(ws, s). length s)"
    by simp
qed

declare trim_runes.simps [simp del]

definition TrimSpace :: "string \<Rightarrow> string" where
  "TrimSpace s = rev (trim_runes (map rev space_runes) (rev (trim_runes space_runes s)))"

text \<open>
  \<open>strings.ToLower\<close> and \<open>strings.ToUpper\<close>. The validators compare the result with ASCII
  words only. Besides the ASCII letters, the runes that map to an ASCII letter are
  U+0130 and U+212A (to \<open>i\<close> and \<open>k\<close>) for \<open>ToLower\<close>, U+0131 and U+017F (to \<open>I\<close> and
  \<open>S\<close>) for \<open>ToUpper\<close>. Every other rune outside ASCII, and every byte that is not
  valid UTF-8, maps to bytes outside ASCII; here such bytes are kept as they are, which
  leaves every comparison with an ASCII word as it is in Go.
\<close>

fun ToLower :: "string \<Rightarrow> string" where
  "ToLower [] = []"
| "ToLower (c # cs) =
     (if 65 \<le> (of_char c :: nat) \<and> (of_char c :: nat) \<le> 90
        then char_of ((of_char c :: nat) + 32) # ToLower cs
      else if HasPrefix (c # cs) [CHR 0xC4, CHR 0xB0] then CHR ''i'' # ToLower (tl cs)
      else if HasPrefix (c # cs) [CHR 0xE2, CHR 0x84, CHR 0xAA] then CHR ''k'' # ToLower (tl (tl cs))
      else c # ToLower cs)"

fun ToUpper :: "string \<Rightarrow> string" where
  "ToUpper [] = []"
| "ToUpper (c # cs) =
     (if 97 \<le> (of_char c :: nat) \<and> (of_char c :: nat) \<le> 122
        then char_of ((of_char c :: nat) - 32) # ToUpper cs
      else if HasPrefix (c # cs) [CHR 0xC4, CHR 0xB1] then CHR ''I'' # ToUpper (tl cs)
      else if HasPrefix (c # cs) [CHR 0xC5, CHR 0xBF] then CHR ''S'' # ToUpper (tl cs)
      else c # ToUpper cs)"

subsection \<open>Package \<open>strconv\<close>\<close>

definition is_digit :: "char \<Rightarrow> bool" where
  "is_digit c = (48 \<le> (of_char c :: nat) \<and> (of_char c :: nat) \<le> 57)"

fun digits_val :: "string \<Rightarrow> int \<Rightarrow> int" where
  "digits_val [] n = n"
| "digits_val (c # cs) n = digits_val cs (n * 10 + (int (of_char c) - 48))"

text \<open>
  \<open>strconv.Atoi\<close> on a 64-bit platform: an optional sign, then one decimal digit or more
  and nothing else; a value that does not fit into 64 bits is an error. \<open>None\<close> is the
  error.
\<close>

definition Atoi :: "string \<Rightarrow> int option" where
  "Atoi s =
     (let neg = (s \<noteq> [] \<and> hd s = CHR ''-'');
          ds = (if s \<noteq> [] \<and> (hd s = CHR ''-'' \<or> hd s = CHR ''+'') then tl s else s);
          v = digits_val ds 0
      in if ds = [] \<or> \<not> list_all is_digit ds then None
         else if neg then (if v > 2 ^ 63 then None else Some (- v))
         else (if v \<ge> 2 ^ 63 then None else Some v))"

subsection \<open>Package \<open>fmt\<close>\<close>

text \<open>The verb \<open>%d\<close>.\<close>

function dec :: "nat \<Rightarrow> string" where
  "dec n = (if n < 10 then [char_of (48 + n)] else dec (n div 10) @ [char_of (48 + n mod 10)])"
  by pat_completeness auto
termination
  by (relation "measure id") auto

declare dec.simps [simp del]

definition fmt_d :: "int \<Rightarrow> string" where
  "fmt_d i = (if i < 0 then CHR ''-'' # dec (nat (- i)) else dec (nat i))"

text \<open>The verb \<open>%s\<close> between single quotes, as in \<open>'%s'\<close>.\<close>

definition quoted :: "string \<Rightarrow> string" where
  "quoted s = [CHR 0x27] @ s @ [CHR 0x27]"

subsection \<open>The regular expressions\<close>

text \<open>
  \<open>^[a-z0-9]+(?:_[a-z0-9]+)*$\<close>: the flag says whether the segment being read has a
  character already.
\<close>

definition is_lower_alnum :: "char \<Rightarrow> bool" where
  "is_lower_alnum c = (is_digit c \<or> (97 \<le> (of_char c :: nat) \<and> (of_char c :: nat) \<le> 122))"

fun snake_run :: "string \<Rightarrow> bool \<Rightarrow> bool" where
  "snake_run [] seen = seen"
| "snake_run (c # cs) seen =
     (if is_lower_alnum c then snake_run cs True
      else if c = CHR ''_'' \<and> seen then snake_run cs False
      else False)"

definition snake :: "string \<Rightarrow> bool" where
  "snake s = snake_run s False"

text \<open>\<open>^\d+(Gi|Mi|Ki)$\<close>\<close>

definition memRe :: "string \<Rightarrow> bool" where
  "memRe s =
     (takeWhile is_digit s \<noteq> [] \<and> dropWhile is_digit s \<in> {''Gi'', ''Mi'', ''Ki''})"

section \<open>The accumulating validator\<close>

text \<open>
  A function that may read \<open>Content[i+1]\<close> out of range returns an \<open>option\<close>: \<open>None\<close>
  is the run-time panic (index out of range), which ends the process before anything is
  reported.
\<close>

subsection \<open>The accumulator\<close>

record verr =
  line :: int
  msg :: string

record vctx =
  "file" :: string
  errs :: "verr list"

definition add :: "vctx \<Rightarrow> int \<Rightarrow> string \<Rightarrow> vctx" where
  "add c l m = c\<lparr>errs := errs c @ [\<lparr>line = l, msg = m\<rparr>]\<rparr>"

definition addRequired :: "vctx \<Rightarrow> string \<Rightarrow> vctx" where
  "addRequired c f = c\<lparr>errs := errs c @ [\<lparr>line = 0, msg = f @ '' is required''\<rparr>]\<rparr>"

text \<open>The line that \<open>flush\<close> writes for one error.\<close>

definition report_line :: "string \<Rightarrow> verr \<Rightarrow> string" where
  "report_line f e =
     (if line e > 0 then f @ '':'' @ fmt_d (line e) @ '' '' @ msg e @ [CHR 0x0A]
      else f @ '': '' @ msg e @ [CHR 0x0A])"

text \<open>\<open>flush\<close> returns what it wrote to the standard output, line by line, and the exit code.\<close>

definition flush :: "vctx \<Rightarrow> string list \<times> int" where
  "flush c = (if length (errs c) = 0 then ([], 0) else (map (report_line (file c)) (errs c), 1))"

subsection \<open>The accessors\<close>

fun field_loop :: "node list \<Rightarrow> string \<Rightarrow> node option option" where
  "field_loop [] key = Some None"
| "field_loop [k] key = None"
| "field_loop (k # v # rest) key =
     (if Kind k = ScalarNode \<and> Value k = key then Some (Some v) else field_loop rest key)"

definition field :: "node \<Rightarrow> string \<Rightarrow> node option option" where
  "field obj key = (if Kind obj \<noteq> MappingNode then Some None else field_loop (Content obj) key)"

definition isStr :: "node \<Rightarrow> bool" where
  "isStr n = (Kind n = ScalarNode \<and> Tag n = ''!!str'')"

definition isInt :: "node \<Rightarrow> bool" where
  "isInt n = (Kind n = ScalarNode \<and> Tag n = ''!!int'')"

definition asInt :: "node \<Rightarrow> int \<times> bool \<times> int" where
  "asInt n =
     (if Kind n \<noteq> ScalarNode then (0, False, Line n)
      else case Atoi (TrimSpace (Value n)) of
             None \<Rightarrow> (0, False, Line n)
           | Some i \<Rightarrow> (i, True, Line n))"

subsection \<open>The loops\<close>

text \<open>\<open>for _, c := range xs { f(ctx, c) }\<close>\<close>

fun for_each :: "(vctx \<Rightarrow> node \<Rightarrow> vctx option) \<Rightarrow> vctx \<Rightarrow> node list \<Rightarrow> vctx option" where
  "for_each f ctx [] = Some ctx"
| "for_each f ctx (x # xs) = f ctx x \<bind> (\<lambda>ctx. for_each f ctx xs)"

text \<open>\<open>for i := 0; i < len(xs); i += 2 { k := xs[i]; v := xs[i+1]; f(ctx, k, v) }\<close>\<close>

fun for_pairs :: "(vctx \<Rightarrow> node \<Rightarrow> node \<Rightarrow> vctx) \<Rightarrow> vctx \<Rightarrow> node list \<Rightarrow> vctx option" where
  "for_pairs f ctx [] = Some ctx"
| "for_pairs f ctx [k] = None"
| "for_pairs f ctx (k # v # rest) = for_pairs f (f ctx k v) rest"

text \<open>An optional field checked by a rule: \<open>if x, ok := field(n, key); ok { rule(ctx, x) }\<close>.\<close>

definition optional_field ::
    "(vctx \<Rightarrow> node \<Rightarrow> vctx option) \<Rightarrow> string \<Rightarrow> vctx \<Rightarrow> node \<Rightarrow> vctx option" where
  "optional_field rule key ctx n =
     field n key \<bind> (\<lambda>x. case x of None \<Rightarrow> Some ctx | Some x \<Rightarrow> rule ctx x)"

text \<open>
  A required field checked by a rule:
  \<open>if x, ok := field(n, key); !ok { ctx.addRequired(key) } else { rule(ctx, x) }\<close>,
  also written \<open>x, ok := field(n, key); if !ok { ctx.addRequired(key); return }\<close> with
  the rule as the rest of the function.
\<close>

definition required_field ::
    "(vctx \<Rightarrow> node \<Rightarrow> vctx option) \<Rightarrow> string \<Rightarrow> vctx \<Rightarrow> node \<Rightarrow> vctx option" where
  "required_field rule key ctx n =
     field n key \<bind> (\<lambda>x. case x of None \<Rightarrow> Some (addRequired ctx key) | Some x \<Rightarrow> rule ctx x)"

subsection \<open>The rules, innermost first\<close>

text \<open>The body of the loop of \<open>validateRRSet\<close>.\<close>

definition validateRRSet_acc_entry :: "vctx \<Rightarrow> node \<Rightarrow> node \<Rightarrow> vctx" where
  "validateRRSet_acc_entry ctx k v =
     (if Value k = ''cpu'' then
        (if \<not> isInt v then add ctx (Line v) ''cpu must be int'' else ctx)
      else if Value k = ''memory'' then
        (if \<not> isStr v then add ctx (Line v) ''memory must be string''
         else if \<not> memRe (Value v)
           then add ctx (Line v) (''memory has invalid format '' @ quoted (Value v))
         else ctx)
      else ctx)"

definition validateRRSet_acc :: "vctx \<Rightarrow> node \<Rightarrow> vctx option" where
  "validateRRSet_acc ctx n =
     (if Kind n \<noteq> MappingNode then Some (add ctx (Line n) ''resources entry must be object'')
      else for_pairs validateRRSet_acc_entry ctx (Content n))"

definition validateResources_acc :: "vctx \<Rightarrow> node \<Rightarrow> vctx option" where
  "validateResources_acc ctx n =
     (if Kind n \<noteq> MappingNode then Some (add ctx (Line n) ''resources must be object'')
      else do {
        ctx \<leftarrow> optional_field validateRRSet_acc ''limits'' ctx n;
        optional_field validateRRSet_acc ''requests'' ctx n
      })"

text \<open>The checks of \<open>validateProbe\<close> on the value of \<open>path\<close>, of \<open>port\<close> and of \<open>httpGet\<close>.\<close>

definition validateProbe_acc_path :: "vctx \<Rightarrow> node \<Rightarrow> vctx option" where
  "validateProbe_acc_path ctx path =
     Some (if \<not> isStr path then add ctx (Line path) ''path must be string''
           else if \<not> HasPrefix (Value path) ''/''
             then add ctx (Line path) (''path has invalid format '' @ quoted (Value path))
           else ctx)"

definition validateProbe_acc_port :: "vctx \<Rightarrow> node \<Rightarrow> vctx option" where
  "validateProbe_acc_port ctx prt =
     Some (case asInt prt of (v, okInt, ln) \<Rightarrow>
             if \<not> okInt then add ctx ln ''port must be int''
             else if v \<le> 0 \<or> v \<ge> 65536 then add ctx (Line prt) ''port value out of range''
             else ctx)"

definition validateProbe_acc_httpGet :: "vctx \<Rightarrow> node \<Rightarrow> vctx option" where
  "validateProbe_acc_httpGet ctx hg =
     (if Kind hg \<noteq> MappingNode then Some (add ctx (Line hg) ''httpGet must be object'')
      else do {
        ctx \<leftarrow> required_field validateProbe_acc_path ''path'' ctx hg;
        required_field validateProbe_acc_port ''port'' ctx hg
      })"

definition validateProbe_acc :: "vctx \<Rightarrow> node \<Rightarrow> string \<Rightarrow> vctx option" where
  "validateProbe_acc ctx n short =
     (if Kind n \<noteq> MappingNode then Some (add ctx (Line n) (short @ '' must be object''))
      else required_field validateProbe_acc_httpGet ''httpGet'' ctx n)"

text \<open>The checks of \<open>validateContainerPort\<close> on the value of \<open>containerPort\<close> and of \<open>protocol\<close>.\<close>

definition validateContainerPort_acc_port :: "vctx \<Rightarrow> node \<Rightarrow> vctx option" where
  "validateContainerPort_acc_port ctx cp =
     Some (case asInt cp of (port, okInt, ln) \<Rightarrow>
             if \<not> okInt then add ctx ln ''containerPort must be int''
             else if port \<le> 0 \<or> port \<ge> 65536
               then add ctx ln ''containerPort value out of range''
             else ctx)"

definition validateContainerPort_acc_protocol :: "vctx \<Rightarrow> node \<Rightarrow> vctx option" where
  "validateContainerPort_acc_protocol ctx proto =
     Some (if \<not> isStr proto then add ctx (Line proto) ''protocol must be string''
           else if ToUpper (Value proto) = ''TCP'' \<or> ToUpper (Value proto) = ''UDP'' then ctx
           else add ctx (Line proto) (''protocol has unsupported value '' @ quoted (Value proto)))"

text \<open>When \<open>containerPort\<close> is absent the rule returns, and \<open>protocol\<close> is not looked at.\<close>

definition validateContainerPort_acc :: "vctx \<Rightarrow> node \<Rightarrow> vctx option" where
  "validateContainerPort_acc ctx n =
     (if Kind n \<noteq> MappingNode then Some (add ctx (Line n) ''ports item must be object'')
      else required_field
             (\<lambda>ctx cp. do {
                ctx \<leftarrow> validateContainerPort_acc_port ctx cp;
                optional_field validateContainerPort_acc_protocol ''protocol'' ctx n
              })
             ''containerPort'' ctx n)"

text \<open>The checks of \<open>validateContainer\<close> on the value of \<open>name\<close>, of \<open>image\<close> and of \<open>ports\<close>.\<close>

definition validateContainer_acc_name :: "vctx \<Rightarrow> node \<Rightarrow> vctx option" where
  "validateContainer_acc_name ctx name =
     Some (if \<not> isStr name then add ctx (Line name) ''name must be string''
           else if TrimSpace (Value name) = [] then add ctx (Line name) ''name is required''
           else if \<not> snake (Value name)
             then add ctx (Line name) (''name has invalid format '' @ quoted (Value name))
           else ctx)"

definition validateContainer_acc_image :: "vctx \<Rightarrow> node \<Rightarrow> vctx option" where
  "validateContainer_acc_image ctx img =
     Some (if \<not> isStr img then add ctx (Line img) ''image must be string''
           else if \<not> HasPrefix (Value img) ''registry.bigbrother.io/''
             then add ctx (Line img) (''image has invalid format '' @ quoted (Value img))
           else let seg = slice_from (Value img) (LastIndex (Value img) CHR ''/'' + 1)
                in if \<not> Contains seg CHR '':''
                     then add ctx (Line img) (''image has invalid format '' @ quoted (Value img))
                   else ctx)"

definition validateContainer_acc_ports :: "vctx \<Rightarrow> node \<Rightarrow> vctx option" where
  "validateContainer_acc_ports ctx ports =
     (if Kind ports \<noteq> SequenceNode then Some (add ctx (Line ports) ''ports must be array'')
      else for_each validateContainerPort_acc ctx (Content ports))"

definition validateContainer_acc :: "vctx \<Rightarrow> node \<Rightarrow> vctx option" where
  "validateContainer_acc ctx n =
     (if Kind n \<noteq> MappingNode then Some (add ctx (Line n) ''containers item must be object'')
      else do {
        ctx \<leftarrow> required_field validateContainer_acc_name ''name'' ctx n;
        ctx \<leftarrow> required_field validateContainer_acc_image ''image'' ctx n;
        ctx \<leftarrow> optional_field validateContainer_acc_ports ''ports'' ctx n;
        ctx \<leftarrow> optional_field (\<lambda>ctx rp. validateProbe_acc ctx rp ''readinessProbe'')
                 ''readinessProbe'' ctx n;
        ctx \<leftarrow> optional_field (\<lambda>ctx lp. validateProbe_acc ctx lp ''livenessProbe'')
                 ''livenessProbe'' ctx n;
        required_field validateResources_acc ''resources'' ctx n
      })"

definition validateSpecContainers_containers :: "vctx \<Rightarrow> node \<Rightarrow> vctx option" where
  "validateSpecContainers_containers ctx containers =
     (if Kind containers \<noteq> SequenceNode
        then Some (add ctx (Line containers) ''containers must be array'')
      else if length (Content containers) = 0
        then Some (add ctx (Line containers) ''containers value out of range'')
      else for_each validateContainer_acc ctx (Content containers))"

definition validateSpecContainers :: "vctx \<Rightarrow> node \<Rightarrow> vctx option" where
  "validateSpecContainers ctx n =
     required_field validateSpecContainers_containers ''containers'' ctx n"

text \<open>The check of \<open>validateSpec\<close> on the value of \<open>os\<close>.\<close>

definition validateSpec_acc_os :: "vctx \<Rightarrow> node \<Rightarrow> vctx option" where
  "validateSpec_acc_os ctx osN =
     Some (if \<not> isStr osN then add ctx (Line osN) ''os must be string''
           else if ToLower (Value osN) = ''linux'' \<or> ToLower (Value osN) = ''windows'' then ctx
           else add ctx (Line osN) (''os has unsupported value '' @ quoted (Value osN)))"

definition validateSpec_acc :: "vctx \<Rightarrow> node \<Rightarrow> vctx option" where
  "validateSpec_acc ctx n =
     (if Kind n \<noteq> MappingNode then Some (add ctx (Line n) ''spec must be object'')
      else optional_field validateSpec_acc_os ''os'' ctx n)"

text \<open>The checks of \<open>validateMetadata\<close> on \<open>name\<close>, \<open>namespace\<close> and \<open>labels\<close>.\<close>

definition validateMetadata_acc_name :: "vctx \<Rightarrow> node \<Rightarrow> vctx option" where
  "validateMetadata_acc_name ctx name =
     Some (if \<not> isStr name then add ctx (Line name) ''name must be string''
           else if TrimSpace (Value name) = [] then add ctx (Line name) ''name is required''
           else ctx)"

definition validateMetadata_acc_namespace :: "vctx \<Rightarrow> node \<Rightarrow> vctx option" where
  "validateMetadata_acc_namespace ctx ns =
     Some (if \<not> isStr ns then add ctx (Line ns) ''namespace must be string'' else ctx)"

definition validateMetadata_acc_label :: "vctx \<Rightarrow> node \<Rightarrow> node \<Rightarrow> vctx" where
  "validateMetadata_acc_label ctx k v =
     (let ctx = (if \<not> isStr k then add ctx (Line k) ''labels key must be string'' else ctx)
      in if \<not> isStr v then add ctx (Line v) ''labels value must be string'' else ctx)"

definition validateMetadata_acc_labels :: "vctx \<Rightarrow> node \<Rightarrow> vctx option" where
  "validateMetadata_acc_labels ctx labels =
     (if Kind labels \<noteq> MappingNode then Some (add ctx (Line labels) ''labels must be object'')
      else for_pairs validateMetadata_acc_label ctx (Content labels))"

definition validateMetadata_acc :: "vctx \<Rightarrow> node \<Rightarrow> vctx option" where
  "validateMetadata_acc ctx n =
     (if Kind n \<noteq> MappingNode then Some (add ctx (Line n) ''metadata must be object'')
      else do {
        ctx \<leftarrow> required_field validateMetadata_acc_name ''name'' ctx n;
        ctx \<leftarrow> optional_field validateMetadata_acc_namespace ''namespace'' ctx n;
        optional_field validateMetadata_acc_labels ''labels'' ctx n
      })"

text \<open>The checks of \<open>validateTop\<close> on the value of \<open>apiVersion\<close> and of \<open>kind\<close>.\<close>

definition validateTop_apiVersion :: "vctx \<Rightarrow> node \<Rightarrow> vctx option" where
  "validateTop_apiVersion ctx api =
     Some (if \<not> isStr api then add ctx (Line api) ''apiVersion must be string''
           else if Value api \<noteq> ''v1''
             then add ctx (Line api) (''apiVersion has unsupported value '' @ quoted (Value api))
           else ctx)"

definition validateTop_kind :: "vctx \<Rightarrow> node \<Rightarrow> vctx option" where
  "validateTop_kind ctx kind =
     Some (if \<not> isStr kind then add ctx (Line kind) ''kind must be string''
           else if Value kind \<noteq> ''Pod''
             then add ctx (Line kind) (''kind has unsupported value '' @ quoted (Value kind))
           else ctx)"

text \<open>
  \<open>validateTop\<close> keeps the node of \<open>spec\<close> and comes back to it after \<open>metadata\<close>:
  \<open>spec\<close> is \<open>nil\<close> when the field is absent.
\<close>

definition validateTop :: "vctx \<Rightarrow> node \<Rightarrow> vctx option" where
  "validateTop ctx n =
     (if Kind n \<noteq> MappingNode
        then Some (add ctx (Line n) ''document must be a mapping object'')
      else do {
        ctx \<leftarrow> required_field validateTop_apiVersion ''apiVersion'' ctx n;
        ctx \<leftarrow> required_field validateTop_kind ''kind'' ctx n;
        spec \<leftarrow> field n ''spec'';
        ctx \<leftarrow> (case spec of
                  None \<Rightarrow> Some (addRequired ctx ''spec'')
                | Some s \<Rightarrow> validateSpec_acc ctx s);
        ctx \<leftarrow> required_field validateMetadata_acc ''metadata'' ctx n;
        case spec of
          None \<Rightarrow> Some ctx
        | Some s \<Rightarrow> validateSpecContainers ctx s
      })"

text \<open>
  \<open>main\<close>, from the parsed document on: the context starts with the base name of the
  file and no error; the result is what is written to the standard output, and the exit
  code.
\<close>

definition run_acc :: "string \<Rightarrow> node \<Rightarrow> (string list \<times> int) option" where
  "run_acc base doc = map_option flush (validateTop \<lparr>file = base, errs = []\<rparr> doc)"

section \<open>The fail-fast validator\<close>

text \<open>
  Every rule of this validator returns a Go \<open>error\<close>, and writes one line to the
  standard error just before it returns one that is not \<open>nil\<close>. A result is \<open>Passed\<close>
  (nothing written, \<open>nil\<close> returned), \<open>Failed w e\<close> (the line \<open>w\<close> written, the error with
  the text \<open>e\<close> returned) or \<open>Panicked\<close> (index out of range).
\<close>

datatype result = Passed | Failed string string | Panicked

definition fprintfErr :: "string \<Rightarrow> int \<Rightarrow> string \<Rightarrow> string" where
  "fprintfErr f l m =
     (if l > 0 then f @ '':'' @ fmt_d l @ '' '' @ m @ [CHR 0x0A]
      else f @ '': '' @ m @ [CHR 0x0A])"

definition fail :: "string \<Rightarrow> int \<Rightarrow> string \<Rightarrow> result" where
  "fail f l m =
     (if l > 0 then Failed (fprintfErr f l m) ''validation failed''
      else Failed (fprintfErr f 0 m) ''validation failed'')"

definition failRequired :: "string \<Rightarrow> string \<Rightarrow> result" where
  "failRequired f fld = Failed (f @ '': '' @ fld @ '' is required'' @ [CHR 0x0A]) ''required field missing''"

fun getField_loop :: "node list \<Rightarrow> string \<Rightarrow> node option option" where
  "getField_loop [] key = Some None"
| "getField_loop [k] key = None"
| "getField_loop (k # v # rest) key =
     (if Kind k = ScalarNode \<and> Value k = key then Some (Some v) else getField_loop rest key)"

definition getField :: "node \<Rightarrow> string \<Rightarrow> node option option" where
  "getField obj key =
     (if Kind obj \<noteq> MappingNode then Some None else getField_loop (Content obj) key)"

definition toInt :: "node \<Rightarrow> int option" where
  "toInt n = Atoi (TrimSpace (Value n))"

text \<open>\<open>if err := r; err != nil { return err }\<close>, then \<open>k\<close>.\<close>

definition and_then :: "result \<Rightarrow> result \<Rightarrow> result" where
  "and_then r k = (case r of Passed \<Rightarrow> k | Failed w e \<Rightarrow> Failed w e | Panicked \<Rightarrow> Panicked)"

text \<open>
  A required field: \<open>x, ok := getField(n, key); if !ok { return failRequired(file, path) }\<close>,
  then the checks on \<open>x\<close>. An optional field: \<open>if x, ok := getField(n, key); ok { ... }\<close>.
\<close>

definition required_ff :: "string \<Rightarrow> string \<Rightarrow> string \<Rightarrow> (node \<Rightarrow> result) \<Rightarrow> node \<Rightarrow> result" where
  "required_ff f path key rule n =
     (case getField n key of
        None \<Rightarrow> Panicked
      | Some None \<Rightarrow> failRequired f path
      | Some (Some x) \<Rightarrow> rule x)"

definition optional_ff :: "string \<Rightarrow> (node \<Rightarrow> result) \<Rightarrow> node \<Rightarrow> result" where
  "optional_ff key rule n =
     (case getField n key of
        None \<Rightarrow> Panicked
      | Some None \<Rightarrow> Passed
      | Some (Some x) \<Rightarrow> rule x)"

fun for_each_ff :: "(node \<Rightarrow> result) \<Rightarrow> node list \<Rightarrow> result" where
  "for_each_ff f [] = Passed"
| "for_each_ff f (x # xs) = and_then (f x) (for_each_ff f xs)"

fun for_pairs_ff :: "(node \<Rightarrow> node \<Rightarrow> result) \<Rightarrow> node list \<Rightarrow> result" where
  "for_pairs_ff f [] = Passed"
| "for_pairs_ff f [k] = Panicked"
| "for_pairs_ff f (k # v # rest) = and_then (f k v) (for_pairs_ff f rest)"

subsection \<open>The rules, innermost first\<close>

definition validateRRSet_ff_entry :: "string \<Rightarrow> string \<Rightarrow> node \<Rightarrow> node \<Rightarrow> result" where
  "validateRRSet_ff_entry f prefix k v =
     (if Kind k \<noteq> ScalarNode \<or> Tag k \<noteq> ''!!str''
        then fail f (Line k) (prefix @ '' key must be string'')
      else if Value k = ''cpu'' then
        (if Kind v \<noteq> ScalarNode then fail f (Line v) (prefix @ ''.cpu must be int'')
         else case toInt v of
                None \<Rightarrow> fail f (Line v) (prefix @ ''.cpu must be int'')
              | Some i \<Rightarrow> Passed)
      else if Value k = ''memory'' then
        (if Kind v \<noteq> ScalarNode \<or> Tag v \<noteq> ''!!str''
           then fail f (Line v) (prefix @ ''.memory must be string'')
         else if \<not> memRe (Value v)
           then fail f (Line v) (prefix @ ''.memory has invalid format '' @ quoted (Value v))
         else Passed)
      else Passed)"

definition validateRRSet_ff :: "string \<Rightarrow> node \<Rightarrow> string \<Rightarrow> result" where
  "validateRRSet_ff f n prefix =
     (if Kind n \<noteq> MappingNode then fail f (Line n) (prefix @ '' must be object'')
      else for_pairs_ff (validateRRSet_ff_entry f prefix) (Content n))"

definition validateResources_ff :: "string \<Rightarrow> node \<Rightarrow> result" where
  "validateResources_ff f n =
     (if Kind n \<noteq> MappingNode then fail f (Line n) ''containers.resources must be object''
      else and_then
        (optional_ff ''limits'' (\<lambda>x. validateRRSet_ff f x ''containers.resources.limits'') n)
        (optional_ff ''requests'' (\<lambda>x. validateRRSet_ff f x ''containers.resources.requests'') n))"

definition validateProbe_ff_path :: "string \<Rightarrow> string \<Rightarrow> node \<Rightarrow> result" where
  "validateProbe_ff_path f prefix pathNode =
     (if Kind pathNode \<noteq> ScalarNode \<or> Tag pathNode \<noteq> ''!!str''
        then fail f (Line pathNode) (prefix @ ''.httpGet.path must be string'')
      else if \<not> HasPrefix (Value pathNode) ''/''
        then fail f (Line pathNode)
               (prefix @ ''.httpGet.path has invalid format '' @ quoted (Value pathNode))
      else Passed)"

definition validateProbe_ff_port :: "string \<Rightarrow> string \<Rightarrow> node \<Rightarrow> result" where
  "validateProbe_ff_port f prefix portNode =
     (if Kind portNode \<noteq> ScalarNode
        then fail f (Line portNode) (prefix @ ''.httpGet.port must be int'')
      else case toInt portNode of
             None \<Rightarrow> fail f (Line portNode) (prefix @ ''.httpGet.port must be int'')
           | Some p \<Rightarrow>
               if p \<le> 0 \<or> p \<ge> 65536
                 then fail f (Line portNode) (prefix @ ''.httpGet.port value out of range'')
               else Passed)"

definition validateProbe_ff :: "string \<Rightarrow> node \<Rightarrow> string \<Rightarrow> result" where
  "validateProbe_ff f n prefix =
     (if Kind n \<noteq> MappingNode then fail f (Line n) (prefix @ '' must be object'')
      else required_ff f (prefix @ ''.httpGet'') ''httpGet''
             (\<lambda>hgNode.
                if Kind hgNode \<noteq> MappingNode
                  then fail f (Line hgNode) (prefix @ ''.httpGet must be object'')
                else and_then
                  (required_ff f (prefix @ ''.httpGet.path'') ''path''
                     (validateProbe_ff_path f prefix) hgNode)
                  (required_ff f (prefix @ ''.httpGet.port'') ''port''
                     (validateProbe_ff_port f prefix) hgNode))
             n)"

definition validateContainerPort_ff_port :: "string \<Rightarrow> node \<Rightarrow> result" where
  "validateContainerPort_ff_port f cpNode =
     (if Kind cpNode \<noteq> ScalarNode then fail f (Line cpNode) ''containerPort must be int''
      else case toInt cpNode of
             None \<Rightarrow> fail f (Line cpNode) ''containerPort must be int''
           | Some port \<Rightarrow>
               if port \<le> 0 \<or> port \<ge> 65536
                 then fail f (Line cpNode) ''containerPort value out of range''
               else Passed)"

definition validateContainerPort_ff_protocol :: "string \<Rightarrow> node \<Rightarrow> result" where
  "validateContainerPort_ff_protocol f protoNode =
     (if Kind protoNode \<noteq> ScalarNode \<or> Tag protoNode \<noteq> ''!!str''
        then fail f (Line protoNode) ''protocol must be string''
      else if ToUpper (Value protoNode) = ''TCP'' \<or> ToUpper (Value protoNode) = ''UDP'' then Passed
      else fail f (Line protoNode)
             (''protocol has unsupported value '' @ quoted (Value protoNode)))"

definition validateContainerPort_ff :: "string \<Rightarrow> node \<Rightarrow> result" where
  "validateContainerPort_ff f n =
     (if Kind n \<noteq> MappingNode then fail f (Line n) ''containers.ports item must be object''
      else and_then
        (required_ff f ''containers.ports.containerPort'' ''containerPort''
           (validateContainerPort_ff_port f) n)
        (optional_ff ''protocol'' (validateContainerPort_ff_protocol f) n))"

definition validateContainer_ff_name :: "string \<Rightarrow> node \<Rightarrow> result" where
  "validateContainer_ff_name f nameNode =
     (if Kind nameNode \<noteq> ScalarNode \<or> Tag nameNode \<noteq> ''!!str''
        then fail f (Line nameNode) ''containers.name must be string''
      else if \<not> snake (Value nameNode)
        then fail f (Line nameNode)
               (''containers.name has invalid format '' @ quoted (Value nameNode))
      else Passed)"

definition validateContainer_ff_image :: "string \<Rightarrow> node \<Rightarrow> result" where
  "validateContainer_ff_image f imageNode =
     (if Kind imageNode \<noteq> ScalarNode \<or> Tag imageNode \<noteq> ''!!str''
        then fail f (Line imageNode) ''containers.image must be string''
      else if \<not> HasPrefix (Value imageNode) ''registry.bigbrother.io/''
        then fail f (Line imageNode)
               (''containers.image has invalid format '' @ quoted (Value imageNode))
      else let lastSlash = LastIndex (Value imageNode) CHR ''/''
           in if lastSlash = - 1
                 \<or> \<not> Contains (slice_from (Value imageNode) (lastSlash + 1)) CHR '':''
                then fail f (Line imageNode)
                       (''containers.image has invalid format '' @ quoted (Value imageNode))
              else Passed)"

definition validateContainer_ff_ports :: "string \<Rightarrow> node \<Rightarrow> result" where
  "validateContainer_ff_ports f portsNode =
     (if Kind portsNode \<noteq> SequenceNode
        then fail f (Line portsNode) ''containers.ports must be array''
      else for_each_ff (validateContainerPort_ff f) (Content portsNode))"

definition validateContainer_ff :: "string \<Rightarrow> node \<Rightarrow> result" where
  "validateContainer_ff f n =
     (if Kind n \<noteq> MappingNode then fail f (Line n) ''containers item must be object''
      else
        and_then (required_ff f ''containers.name'' ''name'' (validateContainer_ff_name f) n)
       (and_then (required_ff f ''containers.image'' ''image'' (validateContainer_ff_image f) n)
       (and_then (optional_ff ''ports'' (validateContainer_ff_ports f) n)
       (and_then (optional_ff ''readinessProbe''
                    (\<lambda>rpNode. validateProbe_ff f rpNode ''containers.readinessProbe'') n)
       (and_then (optional_ff ''livenessProbe''
                    (\<lambda>lpNode. validateProbe_ff f lpNode ''containers.livenessProbe'') n)
                 (required_ff f ''containers.resources'' ''resources''
                    (validateResources_ff f) n))))))"

definition validateSpec_ff_os :: "string \<Rightarrow> node \<Rightarrow> result" where
  "validateSpec_ff_os f osNode =
     (if Kind osNode \<noteq> ScalarNode \<or> Tag osNode \<noteq> ''!!str''
        then fail f (Line osNode) ''spec.os must be string''
      else if ToLower (Value osNode) = ''linux'' \<or> ToLower (Value osNode) = ''windows'' then Passed
      else fail f (Line osNode) (''spec.os has unsupported value '' @ quoted (Value osNode)))"

definition validateSpec_ff_containers :: "string \<Rightarrow> node \<Rightarrow> result" where
  "validateSpec_ff_containers f containersNode =
     (if Kind containersNode \<noteq> SequenceNode
        then fail f (Line containersNode) ''spec.containers must be array''
      else if length (Content containersNode) = 0
        then fail f (Line containersNode) ''spec.containers value out of range''
      else for_each_ff (validateContainer_ff f) (Content containersNode))"

definition validateSpec_ff :: "string \<Rightarrow> node \<Rightarrow> result" where
  "validateSpec_ff f n =
     (if Kind n \<noteq> MappingNode then fail f (Line n) ''spec must be object''
      else and_then
        (optional_ff ''os'' (validateSpec_ff_os f) n)
        (required_ff f ''spec.containers'' ''containers'' (validateSpec_ff_containers f) n))"

definition validateMetadata_ff_name :: "string \<Rightarrow> node \<Rightarrow> result" where
  "validateMetadata_ff_name f nameNode =
     (if Kind nameNode \<noteq> ScalarNode \<or> Tag nameNode \<noteq> ''!!str''
         \<or> TrimSpace (Value nameNode) = []
        then fail f (Line nameNode) ''metadata.name must be string''
      else Passed)"

definition validateMetadata_ff_namespace :: "string \<Rightarrow> node \<Rightarrow> result" where
  "validateMetadata_ff_namespace f nsNode =
     (if Kind nsNode \<noteq> ScalarNode \<or> Tag nsNode \<noteq> ''!!str''
        then fail f (Line nsNode) ''metadata.namespace must be string''
      else Passed)"

definition validateMetadata_ff_label :: "string \<Rightarrow> node \<Rightarrow> node \<Rightarrow> result" where
  "validateMetadata_ff_label f k v =
     (if Kind k \<noteq> ScalarNode \<or> Tag k \<noteq> ''!!str''
        then fail f (Line k) ''metadata.labels key must be string''
      else if Kind v \<noteq> ScalarNode \<or> Tag v \<noteq> ''!!str''
        then fail f (Line v) ''metadata.labels value must be string''
      else Passed)"

definition validateMetadata_ff_labels :: "string \<Rightarrow> node \<Rightarrow> result" where
  "validateMetadata_ff_labels f labelsNode =
     (if Kind labelsNode \<noteq> MappingNode
        then fail f (Line labelsNode) ''metadata.labels must be object''
      else for_pairs_ff (validateMetadata_ff_label f) (Content labelsNode))"

definition validateMetadata_ff :: "string \<Rightarrow> node \<Rightarrow> result" where
  "validateMetadata_ff f n =
     (if Kind n \<noteq> MappingNode then fail f (Line n) ''metadata must be object''
      else
        and_then (required_ff f ''metadata.name'' ''name'' (validateMetadata_ff_name f) n)
       (and_then (optional_ff ''namespace'' (validateMetadata_ff_namespace f) n)
                 (optional_ff ''labels'' (validateMetadata_ff_labels f) n)))"

definition validateTopLevel_apiVersion :: "string \<Rightarrow> node \<Rightarrow> result" where
  "validateTopLevel_apiVersion f apiNode =
     (if Kind apiNode \<noteq> ScalarNode \<or> Tag apiNode \<noteq> ''!!str''
        then fail f (Line apiNode) ''apiVersion must be string''
      else if Value apiNode \<noteq> ''v1''
        then fail f (Line apiNode) (''apiVersion has unsupported value '' @ quoted (Value apiNode))
      else Passed)"

definition validateTopLevel_kind :: "string \<Rightarrow> node \<Rightarrow> result" where
  "validateTopLevel_kind f kindNode =
     (if Kind kindNode \<noteq> ScalarNode \<or> Tag kindNode \<noteq> ''!!str''
        then fail f (Line kindNode) ''kind must be string''
      else if Value kindNode \<noteq> ''Pod''
        then fail f (Line kindNode) (''kind has unsupported value '' @ quoted (Value kindNode))
      else Passed)"

definition validateTopLevel :: "string \<Rightarrow> node \<Rightarrow> result" where
  "validateTopLevel f n =
     (if Kind n \<noteq> MappingNode then fail f (Line n) ''document must be a mapping object''
      else
        and_then (required_ff f ''apiVersion'' ''apiVersion'' (validateTopLevel_apiVersion f) n)
       (and_then (required_ff f ''kind'' ''kind'' (validateTopLevel_kind f) n)
       (and_then (required_ff f ''metadata'' ''metadata'' (validateMetadata_ff f) n)
                 (required_ff f ''spec'' ''spec'' (validateSpec_ff f) n))))"

text \<open>
  \<open>main\<close>, from the parsed document on: what is written to the standard error, and the
  exit code; \<open>None\<close> is the panic.
\<close>

definition run_ff :: "string \<Rightarrow> node \<Rightarrow> (string list \<times> int) option" where
  "run_ff filename doc =
     (case validateTopLevel filename doc of
        Passed \<Rightarrow> Some ([], 0)
      | Failed w e \<Rightarrow> Some ([w], 1)
      | Panicked \<Rightarrow> None)"

section \<open>Documents\<close>

text \<open>Nodes as the parser builds them: a string scalar, a block mapping, a block sequence.\<close>

definition str_node :: "string \<Rightarrow> int \<Rightarrow> node" where
  "str_node v l = Node ScalarNode ''!!str'' v l []"

definition int_node :: "string \<Rightarrow> int \<Rightarrow> node" where
  "int_node v l = Node ScalarNode ''!!int'' v l []"

definition map_node :: "int \<Rightarrow> node list \<Rightarrow> node" where
  "map_node l cs = Node MappingNode ''!!map'' [] l cs"

definition seq_node :: "int \<Rightarrow> node list \<Rightarrow> node" where
  "seq_node l cs = Node SequenceNode ''!!seq'' [] l cs"

text \<open>
  The document of the end-to-end scenario, one field on each line:
  \<^verbatim>\<open>
  apiVersion: v1
  kind: Pod
  metadata:
    name: "web"
  spec:
    containers:
      - name: "web_app"
        image: "registry.bigbrother.io/app:v1"
        resources: {}
  \<close>
\<close>

definition pod_container :: "string \<Rightarrow> node" where
  "pod_container name =
     map_node 7
       [str_node ''name'' 7, str_node name 7,
        str_node ''image'' 8, str_node ''registry.bigbrother.io/app:v1'' 8,
        str_node ''resources'' 9, map_node 9 []]"

definition pod_doc :: node where
  "pod_doc =
     map_node 1
       [str_node ''apiVersion'' 1, str_node ''v1'' 1,
        str_node ''kind'' 2, str_node ''Pod'' 2,
        str_node ''metadata'' 3, map_node 4 [str_node ''name'' 4, str_node ''web'' 4],
        str_node ''spec'' 5,
        map_node 6 [str_node ''containers'' 6, seq_node 7 [pod_container ''web_app'']]]"

text \<open>
  A document whose \<open>spec\<close> is a scalar:
  \<^verbatim>\<open>
  apiVersion: v1
  kind: Pod
  metadata:
    name: "web"
  spec: "x"
  \<close>
\<close>

definition scalar_spec_doc :: node where
  "scalar_spec_doc =
     map_node 1
       [str_node ''apiVersion'' 1, str_node ''v1'' 1,
        str_node ''kind'' 2, str_node ''Pod'' 2,
        str_node ''metadata'' 3, map_node 4 [str_node ''name'' 4, str_node ''web'' 4],
        str_node ''spec'' 5, str_node ''x'' 5]"

text \<open>An element of \<open>ports\<close> with nothing but \<open>containerPort\<close>, on line 3.\<close>

definition port_item :: "node \<Rightarrow> node" where
  "port_item cp = map_node 3 [str_node ''containerPort'' 3, cp]"

text \<open>
  A document without \<open>metadata\<close>, with an unknown \<open>os\<close> and no container:
  \<^verbatim>\<open>
  apiVersion: v1
  kind: Pod
  spec:
    os: "mac"
    containers: []
  \<close>
\<close>

definition no_metadata_doc :: node where
  "no_metadata_doc =
     map_node 1
       [str_node ''apiVersion'' 1, str_node ''v1'' 1,
        str_node ''kind'' 2, str_node ''Pod'' 2,
        str_node ''spec'' 3,
        map_node 4 [str_node ''os'' 4, str_node ''mac'' 4,
                    str_node ''containers'' 5, seq_node 5 []]]"

text \<open>
  A document with a violation under \<open>metadata\<close> (no \<open>name\<close>) and one under \<open>spec\<close> (an
  unknown \<open>os\<close>):
  \<^verbatim>\<open>
  apiVersion: v1
  kind: Pod
  metadata:
    namespace: "prod"
  spec:
    os: "mac"
    containers:
      - name: "web_app"
        ...
  \<close>
\<close>

definition nameless_metadata :: node where
  "nameless_metadata = map_node 4 [str_node ''namespace'' 4, str_node ''prod'' 4]"

definition bad_os_spec :: node where
  "bad_os_spec =
     map_node 6
       [str_node ''os'' 6, str_node ''mac'' 6,
        str_node ''containers'' 7, seq_node 8 [pod_container ''web_app'']]"

definition bad_os_doc :: node where
  "bad_os_doc =
     map_node 1
       [str_node ''apiVersion'' 1, str_node ''v1'' 1,
        str_node ''kind'' 2, str_node ''Pod'' 2,
        str_node ''metadata'' 3, nameless_metadata,
        str_node ''spec'' 5, bad_os_spec]"

section \<open>The image format, in the words of the specification\<close>

text \<open>
  An image is valid iff it starts with \<open>registry.bigbrother.io/\<close> and the segment after
  its final \<open>/\<close> contains \<open>:\<close>.
\<close>

fun starts_with :: "string \<Rightarrow> string \<Rightarrow> bool" where
  "starts_with [] s = True"
| "starts_with (p # ps) [] = False"
| "starts_with (p # ps) (c # cs) = (p = c \<and> starts_with ps cs)"

definition last_segment :: "string \<Rightarrow> string" where
  "last_segment v = rev (takeWhile (\<lambda>c. c \<noteq> CHR ''/'') (rev v))"

definition image_valid :: "string \<Rightarrow> bool" where
  "image_valid v =
     (starts_with ''registry.bigbrother.io/'' v \<and> CHR '':'' \<in> set (last_segment v))"

text \<open>
  The scenario's document with \<open>resources: {limits: {cpu: "2"}}\<close> (on lines 9 to 11):
  the value of \<open>cpu\<close> is quoted, so the parser tags it as a string.
\<close>

definition quoted_cpu_doc :: node where
  "quoted_cpu_doc =
     map_node 1
       [str_node ''apiVersion'' 1, str_node ''v1'' 1,
        str_node ''kind'' 2, str_node ''Pod'' 2,
        str_node ''metadata'' 3, map_node 4 [str_node ''name'' 4, str_node ''web'' 4],
        str_node ''spec'' 5,
        map_node 6
          [str_node ''containers'' 6,
           seq_node 7
             [map_node 7
                [str_node ''name'' 7, str_node ''web_app'' 7,
                 str_node ''image'' 8, str_node ''registry.bigbrother.io/app:v1'' 8,
                 str_node ''resources'' 9,
                 map_node 10
                   [str_node ''limits'' 10,
                    map_node 11 [str_node ''cpu'' 11, str_node ''2'' 11]]]]]]"

section \<open>Where the two validators judge alike\<close>

text \<open>
  The two validators check a resource-quantity set differently: the fail-fast one wants
  every key to be a string scalar and reads a \<open>cpu\<close> value with \<open>strconv.Atoi\<close>, the
  accumulating one does not look at the kind or tag of a key and wants a \<open>cpu\<close> value to
  carry the tag \<open>!!int\<close>. An entry \<open>k: v\<close> of such a set is judged alike by both when
  \<open>rr_entry_ok k v\<close> holds. \<open>rrsets doc\<close> are the nodes that the validators take as
  resource-quantity sets: the values of \<open>limits\<close> and \<open>requests\<close> under the \<open>resources\<close>
  of the elements of \<open>spec.containers\<close>.
\<close>

fun entries :: "node list \<Rightarrow> (node \<times> node) list" where
  "entries (k # v # rest) = (k, v) # entries rest"
| "entries xs = []"

definition rr_entry_ok :: "node \<Rightarrow> node \<Rightarrow> bool" where
  "rr_entry_ok k v =
     (isStr k \<and> (Value k = ''cpu'' \<longrightarrow> (isInt v \<longleftrightarrow> Kind v = ScalarNode \<and> toInt v \<noteq> None)))"

definition rr_ok :: "node \<Rightarrow> bool" where
  "rr_ok m = (Kind m = MappingNode \<longrightarrow> list_all (\<lambda>(k, v). rr_entry_ok k v) (entries (Content m)))"

definition found :: "node \<Rightarrow> string \<Rightarrow> node list" where
  "found n key = (case field n key of Some (Some x) \<Rightarrow> [x] | _ \<Rightarrow> [])"

definition rrsets_of_container :: "node \<Rightarrow> node list" where
  "rrsets_of_container c =
     [m. res \<leftarrow> found c ''resources'', m \<leftarrow> found res ''limits'' @ found res ''requests'']"

definition rrsets :: "node \<Rightarrow> node list" where
  "rrsets doc =
     [m. spec \<leftarrow> found doc ''spec'', cs \<leftarrow> found spec ''containers'', Kind cs = SequenceNode,
         c \<leftarrow> Content cs, m \<leftarrow> rrsets_of_container c]"

definition rr_consistent :: "node \<Rightarrow> bool" where
  "rr_consistent doc = list_all rr_ok (rrsets doc)"

text \<open>
  A rule of the fail-fast validator and what the rule of the accumulating validator
  appends agree when neither panics and the first passes exactly when the second appends
  nothing.
\<close>

definition agree :: "result \<Rightarrow> verr list option \<Rightarrow> bool" where
  "agree r e = (r \<noteq> Panicked \<and> e \<noteq> None \<and> (r = Passed \<longleftrightarrow> e = Some []))"

section \<open>Errors for a missing field, errors at a node\<close>

text \<open>
  The names under which the accumulating validator reports a missing field, and the
  paths under which the fail-fast validator does.
\<close>

definition required_fields :: "string list" where
  "required_fields =
     [''apiVersion'', ''kind'', ''spec'', ''metadata'', ''name'', ''containers'', ''image'',
      ''resources'', ''containerPort'', ''httpGet'', ''path'', ''port'']"

definition required_paths :: "string list" where
  "required_paths =
     [''apiVersion'', ''kind'', ''metadata'', ''spec'', ''metadata.name'', ''spec.containers'',
      ''containers.name'', ''containers.image'', ''containers.resources'',
      ''containers.ports.containerPort'',
      ''containers.readinessProbe.httpGet'', ''containers.readinessProbe.httpGet.path'',
      ''containers.readinessProbe.httpGet.port'',
      ''containers.livenessProbe.httpGet'', ''containers.livenessProbe.httpGet.path'',
      ''containers.livenessProbe.httpGet.port'']"




text \<open>The same for what the fail-fast validator writes and returns.\<close>

definition missing_report :: "string \<Rightarrow> string \<Rightarrow> string \<Rightarrow> bool" where
  "missing_report f w e =
     (e = ''required field missing''
      \<and> list_ex (\<lambda>k. w = f @ '': '' @ k @ '' is required'' @ [CHR 0x0A]) required_paths)"

definition located_report :: "string \<Rightarrow> node \<Rightarrow> string \<Rightarrow> string \<Rightarrow> bool" where
  "located_report f n w e =
     (e = ''validation failed'' \<and> (\<exists>m\<in>set (subnodes n). \<exists>t. w = fprintfErr f (Line m) t))"

definition sound_ff :: "string \<Rightarrow> node \<Rightarrow> result \<Rightarrow> bool" where
  "sound_ff f n r = (\<forall>w e. r = Failed w e \<longrightarrow> missing_report f w e \<or> located_report f n w e)"

text \<open>Errors none of which is the range violation of \<open>containers\<close>.\<close>

definition quiet :: "verr list option \<Rightarrow> bool" where
  "quiet r = (\<forall>l. r = Some l \<longrightarrow> (\<forall>e\<in>set l. msg e \<noteq> ''containers value out of range''))"

section \<open>What a rule appends\<close>

text \<open>
  A rule of the accumulating validator only appends to \<open>errs\<close>, and what it appends does
  not depend on the context it is given. \<open>emits st\<close> is the list that the step \<open>st\<close>
  appends to an empty accumulator (\<open>None\<close> when it panics), \<open>yields st r\<close> says that
  \<open>st\<close> appends \<open>r\<close> to every context, and \<open>errors rule n\<close> is what a rule appends for
  the node \<open>n\<close>.
\<close>

definition emits :: "(vctx \<Rightarrow> vctx option) \<Rightarrow> verr list option" where
  "emits st = map_option errs (st \<lparr>file = [], errs = []\<rparr>)"

definition yields :: "(vctx \<Rightarrow> vctx option) \<Rightarrow> verr list option \<Rightarrow> bool" where
  "yields st r = (\<forall>ctx. st ctx = map_option (\<lambda>l. ctx\<lparr>errs := errs ctx @ l\<rparr>) r)"

definition errors :: "(vctx \<Rightarrow> node \<Rightarrow> vctx option) \<Rightarrow> node \<Rightarrow> verr list option" where
  "errors rule n = emits (\<lambda>ctx. rule ctx n)"

definition one :: "int \<Rightarrow> string \<Rightarrow> verr list" where
  "one l m = [\<lparr>line = l, msg = m\<rparr>]"

text \<open>One step after another, a loop over pairs, a loop over elements, a field.\<close>

definition seq_emits :: "verr list option \<Rightarrow> verr list option \<Rightarrow> verr list option" where
  "seq_emits a b = (case a of None \<Rightarrow> None | Some x \<Rightarrow> map_option (\<lambda>y. x @ y) b)"

fun pairs_emits :: "(node \<Rightarrow> node \<Rightarrow> verr list) \<Rightarrow> node list \<Rightarrow> verr list option" where
  "pairs_emits g [] = Some []"
| "pairs_emits g [k] = None"
| "pairs_emits g (k # v # rest) = map_option (\<lambda>r. g k v @ r) (pairs_emits g rest)"

definition each_errors :: "(vctx \<Rightarrow> node \<Rightarrow> vctx option) \<Rightarrow> node list \<Rightarrow> verr list option" where
  "each_errors rule xs = foldr (\<lambda>x. seq_emits (errors rule x)) xs (Some [])"

definition optional_errors :: "(vctx \<Rightarrow> node \<Rightarrow> vctx option) \<Rightarrow> string \<Rightarrow> node \<Rightarrow> verr list option" where
  "optional_errors rule key n =
     (case field n key of None \<Rightarrow> None | Some None \<Rightarrow> Some [] | Some (Some x) \<Rightarrow> errors rule x)"

definition required_errors :: "(vctx \<Rightarrow> node \<Rightarrow> vctx option) \<Rightarrow> string \<Rightarrow> node \<Rightarrow> verr list option" where
  "required_errors rule key n =
     (case field n key of
        None \<Rightarrow> None
      | Some None \<Rightarrow> Some (one 0 (key @ '' is required''))
      | Some (Some x) \<Rightarrow> errors rule x)"

text \<open>What the bodies of the loops over pairs append, and the check of \<open>containerPort\<close>.\<close>

definition rrset_entry_errors :: "node \<Rightarrow> node \<Rightarrow> verr list" where
  "rrset_entry_errors k v =
     (if Value k = ''cpu'' then (if \<not> isInt v then one (Line v) ''cpu must be int'' else [])
      else if Value k = ''memory'' then
        (if \<not> isStr v then one (Line v) ''memory must be string''
         else if \<not> memRe (Value v) then one (Line v) (''memory has invalid format '' @ quoted (Value v))
         else [])
      else [])"

definition label_errors :: "node \<Rightarrow> node \<Rightarrow> verr list" where
  "label_errors k v =
     (if \<not> isStr k then one (Line k) ''labels key must be string'' else [])
     @ (if \<not> isStr v then one (Line v) ''labels value must be string'' else [])"

definition containerPort_errors :: "node \<Rightarrow> verr list" where
  "containerPort_errors cp =
     (case asInt cp of (port, okInt, ln) \<Rightarrow>
        if \<not> okInt then one ln ''containerPort must be int''
        else if port \<le> 0 \<or> port \<ge> 65536 then one ln ''containerPort value out of range''
        else [])"

section \<open>Lemmas\<close>

subsection \<open>Trees and fields\<close>

lemma getField_loop_eq: "getField_loop cs key = field_loop cs key"
  by (induction cs key rule: field_loop.induct) simp_all

lemma getField_eq: "getField n key = field n key"
  by (simp add: getField_def field_def getField_loop_eq)

lemma wf_node_Content: "wf_node n \<Longrightarrow> x \<in> set (Content n) \<Longrightarrow> wf_node x"
  by (cases n) (simp add: list_all_iff)

lemma wf_node_even: "wf_node n \<Longrightarrow> Kind n = MappingNode \<Longrightarrow> even (length (Content n))"
  by (cases n) simp

lemma field_loop_even: "even (length cs) \<Longrightarrow> \<exists>r. field_loop cs key = Some r"
  by (induction cs key rule: field_loop.induct) simp_all

lemma field_loop_mem: "field_loop cs key = Some (Some v) \<Longrightarrow> v \<in> set cs"
  by (induction cs key rule: field_loop.induct) (auto split: if_splits)

lemma field_total: "wf_node n \<Longrightarrow> \<exists>r. field n key = Some r"
  by (simp add: field_def field_loop_even wf_node_even)

lemma field_found: "field n key = Some (Some v) \<Longrightarrow> Kind n = MappingNode \<and> v \<in> set (Content n)"
  by (auto simp: field_def field_loop_mem split: if_splits)

lemma field_wf: "wf_node n \<Longrightarrow> field n key = Some (Some v) \<Longrightarrow> wf_node v"
  using field_found wf_node_Content by blast

lemma subnodes_self: "n \<in> set (subnodes n)"
  by (cases n) simp

lemma subnodes_Content: "x \<in> set (Content n) \<Longrightarrow> set (subnodes x) \<subseteq> set (subnodes n)"
  by (cases n) auto

subsection \<open>Steps that append\<close>

lemma yieldsD: "yields st r \<Longrightarrow> st ctx = map_option (\<lambda>l. ctx\<lparr>errs := errs ctx @ l\<rparr>) r"
  by (simp add: yields_def)

lemma yields_emits: "yields st r \<Longrightarrow> emits st = r"
  by (cases r) (simp_all add: emits_def yields_def)

lemma yields_skip: "yields (\<lambda>ctx. Some ctx) (Some [])"
  by (simp add: yields_def)

lemma yields_add: "yields (\<lambda>ctx. Some (add ctx l m)) (Some [\<lparr>line = l, msg = m\<rparr>])"
  by (simp add: yields_def add_def)

lemma yields_addRequired:
  "yields (\<lambda>ctx. Some (addRequired ctx k)) (Some [\<lparr>line = 0, msg = k @ '' is required''\<rparr>])"
  by (simp add: yields_def addRequired_def)

lemma yields_bind:
  assumes "yields s a" and "yields t b"
  shows "yields (\<lambda>ctx. s ctx \<bind> t) (seq_emits a b)"
  by (cases a; cases b) (simp_all add: yields_def yieldsD [OF assms(1)] yieldsD [OF assms(2)] seq_emits_def)

lemma yields_if:
  assumes "b \<Longrightarrow> yields s x" and "\<not> b \<Longrightarrow> yields t y"
  shows "yields (\<lambda>ctx. if b then s ctx else t ctx) (if b then x else y)"
  using assms by (cases b) simp_all

lemma yields_for_each:
  assumes "\<And>x. x \<in> set xs \<Longrightarrow> yields (\<lambda>ctx. f ctx x) (g x)"
  shows "yields (\<lambda>ctx. for_each f ctx xs) (foldr (\<lambda>x. seq_emits (g x)) xs (Some []))"
  using assms
proof (induction xs)
  case Nil
  show ?case by (simp add: yields_skip)
next
  case (Cons x xs)
  have "yields (\<lambda>ctx. f ctx x \<bind> (\<lambda>ctx. for_each f ctx xs))
          (seq_emits (g x) (foldr (\<lambda>x. seq_emits (g x)) xs (Some [])))"
    by (rule yields_bind) (simp_all add: Cons)
  then show ?case by simp
qed

lemma yields_for_pairs:
  assumes f: "\<And>ctx k v. f ctx k v = ctx\<lparr>errs := errs ctx @ g k v\<rparr>"
  shows "yields (\<lambda>ctx. for_pairs f ctx xs) (pairs_emits g xs)"
proof -
  have "for_pairs f ctx xs = map_option (\<lambda>l. ctx\<lparr>errs := errs ctx @ l\<rparr>) (pairs_emits g xs)" for ctx
  proof (induction xs arbitrary: ctx rule: induct_list012)
    case (3 k v rest)
    have step: "f ctx k v = ctx\<lparr>errs := errs ctx @ g k v\<rparr>"
      by (rule f)
    have "for_pairs f ctx (k # v # rest) = for_pairs f (f ctx k v) rest"
      by simp
    then have "for_pairs f ctx (k # v # rest) = for_pairs f (ctx\<lparr>errs := errs ctx @ g k v\<rparr>) rest"
      by (simp only: step)
    also have "\<dots> = map_option (\<lambda>l. ctx\<lparr>errs := errs ctx @ g k v @ l\<rparr>) (pairs_emits g rest)"
      by (cases "pairs_emits g rest") (simp_all add: 3(1))
    finally show ?case
      by (cases "pairs_emits g rest") simp_all
  qed simp_all
  then show ?thesis by (simp add: yields_def)
qed

lemma yields_optional_field:
  assumes "\<And>x. field n key = Some (Some x) \<Longrightarrow> yields (\<lambda>ctx. rule ctx x) (g x)"
  shows "yields (\<lambda>ctx. optional_field rule key ctx n)
           (case field n key of None \<Rightarrow> None | Some None \<Rightarrow> Some [] | Some (Some x) \<Rightarrow> g x)"
proof (cases "field n key")
  case None
  then show ?thesis by (simp add: yields_def optional_field_def)
next
  case (Some r)
  then show ?thesis
    using assms by (cases r) (simp_all add: optional_field_def yields_skip)
qed

lemma yields_required_field:
  assumes "\<And>x. field n key = Some (Some x) \<Longrightarrow> yields (\<lambda>ctx. rule ctx x) (g x)"
  shows "yields (\<lambda>ctx. required_field rule key ctx n)
           (case field n key of
              None \<Rightarrow> None
            | Some None \<Rightarrow> Some [\<lparr>line = 0, msg = key @ '' is required''\<rparr>]
            | Some (Some x) \<Rightarrow> g x)"
proof (cases "field n key")
  case None
  then show ?thesis by (simp add: yields_def required_field_def)
next
  case (Some r)
  then show ?thesis
    using assms by (cases r) (simp_all add: required_field_def yields_addRequired)
qed

lemma yields_one: "yields (\<lambda>ctx. Some (add ctx l m)) (Some (one l m))"
  by (simp add: one_def yields_add)

lemma yields_required: "yields (\<lambda>ctx. Some (addRequired ctx k)) (Some (one 0 (k @ '' is required'')))"
  by (simp add: one_def yields_addRequired)

lemma yields_errors: "yields (\<lambda>ctx. rule ctx n) r \<Longrightarrow> errors rule n = r"
  by (simp add: errors_def yields_emits)

lemma yields_framed: "yields (\<lambda>ctx. rule ctx n) r \<Longrightarrow> yields (\<lambda>ctx. rule ctx n) (errors rule n)"
  by (simp add: errors_def yields_emits)

subsection \<open>Resources: what the rules append\<close>

lemma validateRRSet_acc_entry_eq:
  "validateRRSet_acc_entry ctx k v = ctx\<lparr>errs := errs ctx @ rrset_entry_errors k v\<rparr>"
  by (simp add: validateRRSet_acc_entry_def rrset_entry_errors_def add_def one_def)

lemma validateRRSet_acc_yields:
  "yields (\<lambda>ctx. validateRRSet_acc ctx n)
     (if Kind n \<noteq> MappingNode then Some (one (Line n) ''resources entry must be object'')
      else pairs_emits rrset_entry_errors (Content n))"
  unfolding validateRRSet_acc_def
  by (intro yields_if yields_one yields_for_pairs validateRRSet_acc_entry_eq)

lemmas validateRRSet_acc_framed = yields_framed [where rule = validateRRSet_acc, OF validateRRSet_acc_yields]

lemmas validateRRSet_acc_errors = yields_errors [where rule = validateRRSet_acc, OF validateRRSet_acc_yields]

lemma yields_optional:
  assumes "\<And>x. yields (\<lambda>ctx. rule ctx x) (errors rule x)"
  shows "yields (\<lambda>ctx. optional_field rule key ctx n) (optional_errors rule key n)"
  unfolding optional_errors_def by (rule yields_optional_field) (rule assms)

lemma yields_requiredf:
  assumes "\<And>x. yields (\<lambda>ctx. rule ctx x) (errors rule x)"
  shows "yields (\<lambda>ctx. required_field rule key ctx n) (required_errors rule key n)"
  unfolding required_errors_def one_def by (rule yields_required_field) (rule assms)

lemma validateResources_acc_yields:
  "yields (\<lambda>ctx. validateResources_acc ctx n)
     (if Kind n \<noteq> MappingNode then Some (one (Line n) ''resources must be object'')
      else seq_emits (optional_errors validateRRSet_acc ''limits'' n)
                     (optional_errors validateRRSet_acc ''requests'' n))"
  unfolding validateResources_acc_def
  by (intro yields_if yields_one yields_bind yields_optional validateRRSet_acc_framed)

lemmas validateResources_acc_framed = yields_framed [where rule = validateResources_acc, OF validateResources_acc_yields]

lemmas validateResources_acc_errors = yields_errors [where rule = validateResources_acc, OF validateResources_acc_yields]

subsection \<open>Probes: what the rules append\<close>

lemma validateProbe_acc_path_yields:
  "yields (\<lambda>ctx. validateProbe_acc_path ctx x)
     (Some (if \<not> isStr x then one (Line x) ''path must be string''
            else if \<not> HasPrefix (Value x) ''/''
              then one (Line x) (''path has invalid format '' @ quoted (Value x))
            else []))"
  by (simp add: yields_def validateProbe_acc_path_def add_def one_def)

lemmas validateProbe_acc_path_framed = yields_framed [where rule = validateProbe_acc_path, OF validateProbe_acc_path_yields]

lemmas validateProbe_acc_path_errors = yields_errors [where rule = validateProbe_acc_path, OF validateProbe_acc_path_yields]

lemma validateProbe_acc_port_yields:
  "yields (\<lambda>ctx. validateProbe_acc_port ctx x)
     (Some (case asInt x of (v, okInt, ln) \<Rightarrow>
              if \<not> okInt then one ln ''port must be int''
              else if v \<le> 0 \<or> v \<ge> 65536 then one (Line x) ''port value out of range''
              else []))"
  by (simp add: yields_def validateProbe_acc_port_def add_def one_def split: prod.splits)

lemmas validateProbe_acc_port_framed = yields_framed [where rule = validateProbe_acc_port, OF validateProbe_acc_port_yields]

lemmas validateProbe_acc_port_errors = yields_errors [where rule = validateProbe_acc_port, OF validateProbe_acc_port_yields]

lemma validateProbe_acc_httpGet_yields:
  "yields (\<lambda>ctx. validateProbe_acc_httpGet ctx hg)
     (if Kind hg \<noteq> MappingNode then Some (one (Line hg) ''httpGet must be object'')
      else seq_emits (required_errors validateProbe_acc_path ''path'' hg)
                     (required_errors validateProbe_acc_port ''port'' hg))"
  unfolding validateProbe_acc_httpGet_def
  by (intro yields_if yields_one yields_bind yields_requiredf
        validateProbe_acc_path_framed validateProbe_acc_port_framed)

lemmas validateProbe_acc_httpGet_framed = yields_framed [where rule = validateProbe_acc_httpGet, OF validateProbe_acc_httpGet_yields]

lemmas validateProbe_acc_httpGet_errors = yields_errors [where rule = validateProbe_acc_httpGet, OF validateProbe_acc_httpGet_yields]

lemma validateProbe_acc_yields:
  "yields (\<lambda>ctx. validateProbe_acc ctx n short)
     (if Kind n \<noteq> MappingNode then Some (one (Line n) (short @ '' must be object''))
      else required_errors validateProbe_acc_httpGet ''httpGet'' n)"
  unfolding validateProbe_acc_def
  by (intro yields_if yields_one yields_requiredf validateProbe_acc_httpGet_framed)

lemmas validateProbe_acc_framed =
  yields_framed [where rule = "\<lambda>ctx n. validateProbe_acc ctx n short" for short, OF validateProbe_acc_yields]

lemmas validateProbe_acc_errors =
  yields_errors [where rule = "\<lambda>ctx n. validateProbe_acc ctx n short" for short, OF validateProbe_acc_yields]

subsection \<open>Ports: what the rules append\<close>

lemma validateContainerPort_acc_port_yields:
  "yields (\<lambda>ctx. validateContainerPort_acc_port ctx cp) (Some (containerPort_errors cp))"
  by (simp add: yields_def validateContainerPort_acc_port_def containerPort_errors_def add_def one_def
        split: prod.splits)

lemma validateContainerPort_acc_protocol_yields:
  "yields (\<lambda>ctx. validateContainerPort_acc_protocol ctx x)
     (Some (if \<not> isStr x then one (Line x) ''protocol must be string''
            else if ToUpper (Value x) = ''TCP'' \<or> ToUpper (Value x) = ''UDP'' then []
            else one (Line x) (''protocol has unsupported value '' @ quoted (Value x))))"
  by (simp add: yields_def validateContainerPort_acc_protocol_def add_def one_def)

lemmas validateContainerPort_acc_protocol_framed = yields_framed [where rule = validateContainerPort_acc_protocol, OF validateContainerPort_acc_protocol_yields]

lemmas validateContainerPort_acc_protocol_errors = yields_errors [where rule = validateContainerPort_acc_protocol, OF validateContainerPort_acc_protocol_yields]

lemma validateContainerPort_acc_yields:
  "yields (\<lambda>ctx. validateContainerPort_acc ctx n)
     (if Kind n \<noteq> MappingNode then Some (one (Line n) ''ports item must be object'')
      else case field n ''containerPort'' of
             None \<Rightarrow> None
           | Some None \<Rightarrow> Some (one 0 (''containerPort'' @ '' is required''))
           | Some (Some cp) \<Rightarrow>
               seq_emits (Some (containerPort_errors cp))
                 (optional_errors validateContainerPort_acc_protocol ''protocol'' n))"
  unfolding validateContainerPort_acc_def one_def [of 0]
  by (intro yields_if yields_one yields_required_field yields_bind yields_optional
        validateContainerPort_acc_port_yields validateContainerPort_acc_protocol_framed)

lemmas validateContainerPort_acc_framed = yields_framed [where rule = validateContainerPort_acc, OF validateContainerPort_acc_yields]

lemmas validateContainerPort_acc_errors = yields_errors [where rule = validateContainerPort_acc, OF validateContainerPort_acc_yields]

subsection \<open>Containers: what the rules append\<close>

lemma validateContainer_acc_name_yields:
  "yields (\<lambda>ctx. validateContainer_acc_name ctx x)
     (Some (if \<not> isStr x then one (Line x) ''name must be string''
            else if TrimSpace (Value x) = [] then one (Line x) ''name is required''
            else if \<not> snake (Value x)
              then one (Line x) (''name has invalid format '' @ quoted (Value x))
            else []))"
  by (simp add: yields_def validateContainer_acc_name_def add_def one_def)

lemmas validateContainer_acc_name_framed = yields_framed [where rule = validateContainer_acc_name, OF validateContainer_acc_name_yields]

lemmas validateContainer_acc_name_errors = yields_errors [where rule = validateContainer_acc_name, OF validateContainer_acc_name_yields]

lemma validateContainer_acc_image_yields:
  "yields (\<lambda>ctx. validateContainer_acc_image ctx x)
     (Some (if \<not> isStr x then one (Line x) ''image must be string''
            else if \<not> HasPrefix (Value x) ''registry.bigbrother.io/''
                    \<or> \<not> Contains (slice_from (Value x) (LastIndex (Value x) CHR ''/'' + 1)) CHR '':''
              then one (Line x) (''image has invalid format '' @ quoted (Value x))
            else []))"
  by (simp add: yields_def validateContainer_acc_image_def add_def one_def Let_def)

lemmas validateContainer_acc_image_framed = yields_framed [where rule = validateContainer_acc_image, OF validateContainer_acc_image_yields]

lemmas validateContainer_acc_image_errors = yields_errors [where rule = validateContainer_acc_image, OF validateContainer_acc_image_yields]

lemma yields_each:
  assumes "\<And>x. yields (\<lambda>ctx. rule ctx x) (errors rule x)"
  shows "yields (\<lambda>ctx. for_each rule ctx xs) (each_errors rule xs)"
  unfolding each_errors_def by (rule yields_for_each) (rule assms)

lemma validateContainer_acc_ports_yields:
  "yields (\<lambda>ctx. validateContainer_acc_ports ctx x)
     (if Kind x \<noteq> SequenceNode then Some (one (Line x) ''ports must be array'')
      else each_errors validateContainerPort_acc (Content x))"
  unfolding validateContainer_acc_ports_def
  by (intro yields_if yields_one yields_each validateContainerPort_acc_framed)

lemmas validateContainer_acc_ports_framed = yields_framed [where rule = validateContainer_acc_ports, OF validateContainer_acc_ports_yields]

lemmas validateContainer_acc_ports_errors = yields_errors [where rule = validateContainer_acc_ports, OF validateContainer_acc_ports_yields]

lemma validateContainer_acc_yields:
  "yields (\<lambda>ctx. validateContainer_acc ctx n)
     (if Kind n \<noteq> MappingNode then Some (one (Line n) ''containers item must be object'')
      else seq_emits (required_errors validateContainer_acc_name ''name'' n)
          (seq_emits (required_errors validateContainer_acc_image ''image'' n)
          (seq_emits (optional_errors validateContainer_acc_ports ''ports'' n)
          (seq_emits (optional_errors (\<lambda>ctx rp. validateProbe_acc ctx rp ''readinessProbe'')
                        ''readinessProbe'' n)
          (seq_emits (optional_errors (\<lambda>ctx lp. validateProbe_acc ctx lp ''livenessProbe'')
                        ''livenessProbe'' n)
                     (required_errors validateResources_acc ''resources'' n))))))"
  unfolding validateContainer_acc_def
  by (intro yields_if yields_one yields_bind yields_requiredf yields_optional
        validateContainer_acc_name_framed validateContainer_acc_image_framed
        validateContainer_acc_ports_framed validateProbe_acc_framed validateResources_acc_framed)

lemmas validateContainer_acc_framed = yields_framed [where rule = validateContainer_acc, OF validateContainer_acc_yields]

lemmas validateContainer_acc_errors = yields_errors [where rule = validateContainer_acc, OF validateContainer_acc_yields]

subsection \<open>The spec: what the rules append\<close>

lemma validateSpecContainers_containers_yields:
  "yields (\<lambda>ctx. validateSpecContainers_containers ctx x)
     (if Kind x \<noteq> SequenceNode then Some (one (Line x) ''containers must be array'')
      else if length (Content x) = 0 then Some (one (Line x) ''containers value out of range'')
      else each_errors validateContainer_acc (Content x))"
  unfolding validateSpecContainers_containers_def
  by (intro yields_if yields_one yields_each validateContainer_acc_framed)

lemmas validateSpecContainers_containers_framed = yields_framed [where rule = validateSpecContainers_containers, OF validateSpecContainers_containers_yields]

lemmas validateSpecContainers_containers_errors = yields_errors [where rule = validateSpecContainers_containers, OF validateSpecContainers_containers_yields]

lemma validateSpecContainers_yields:
  "yields (\<lambda>ctx. validateSpecContainers ctx n)
     (required_errors validateSpecContainers_containers ''containers'' n)"
  unfolding validateSpecContainers_def
  by (intro yields_requiredf validateSpecContainers_containers_framed)

lemmas validateSpecContainers_framed = yields_framed [where rule = validateSpecContainers, OF validateSpecContainers_yields]

lemmas validateSpecContainers_errors = yields_errors [where rule = validateSpecContainers, OF validateSpecContainers_yields]

lemma validateSpec_acc_os_yields:
  "yields (\<lambda>ctx. validateSpec_acc_os ctx x)
     (Some (if \<not> isStr x then one (Line x) ''os must be string''
            else if ToLower (Value x) = ''linux'' \<or> ToLower (Value x) = ''windows'' then []
            else one (Line x) (''os has unsupported value '' @ quoted (Value x))))"
  by (simp add: yields_def validateSpec_acc_os_def add_def one_def)

lemmas validateSpec_acc_os_framed = yields_framed [where rule = validateSpec_acc_os, OF validateSpec_acc_os_yields]

lemmas validateSpec_acc_os_errors = yields_errors [where rule = validateSpec_acc_os, OF validateSpec_acc_os_yields]

lemma validateSpec_acc_yields:
  "yields (\<lambda>ctx. validateSpec_acc ctx n)
     (if Kind n \<noteq> MappingNode then Some (one (Line n) ''spec must be object'')
      else optional_errors validateSpec_acc_os ''os'' n)"
  unfolding validateSpec_acc_def
  by (intro yields_if yields_one yields_optional validateSpec_acc_os_framed)

lemmas validateSpec_acc_framed = yields_framed [where rule = validateSpec_acc, OF validateSpec_acc_yields]

lemmas validateSpec_acc_errors = yields_errors [where rule = validateSpec_acc, OF validateSpec_acc_yields]

subsection \<open>The metadata: what the rules append\<close>

lemma validateMetadata_acc_name_yields:
  "yields (\<lambda>ctx. validateMetadata_acc_name ctx x)
     (Some (if \<not> isStr x then one (Line x) ''name must be string''
            else if TrimSpace (Value x) = [] then one (Line x) ''name is required''
            else []))"
  by (simp add: yields_def validateMetadata_acc_name_def add_def one_def)

lemmas validateMetadata_acc_name_framed = yields_framed [where rule = validateMetadata_acc_name, OF validateMetadata_acc_name_yields]

lemmas validateMetadata_acc_name_errors = yields_errors [where rule = validateMetadata_acc_name, OF validateMetadata_acc_name_yields]

lemma validateMetadata_acc_namespace_yields:
  "yields (\<lambda>ctx. validateMetadata_acc_namespace ctx x)
     (Some (if \<not> isStr x then one (Line x) ''namespace must be string'' else []))"
  by (simp add: yields_def validateMetadata_acc_namespace_def add_def one_def)

lemmas validateMetadata_acc_namespace_framed = yields_framed [where rule = validateMetadata_acc_namespace, OF validateMetadata_acc_namespace_yields]

lemmas validateMetadata_acc_namespace_errors = yields_errors [where rule = validateMetadata_acc_namespace, OF validateMetadata_acc_namespace_yields]

lemma validateMetadata_acc_label_eq:
  "validateMetadata_acc_label ctx k v = ctx\<lparr>errs := errs ctx @ label_errors k v\<rparr>"
  by (simp add: validateMetadata_acc_label_def label_errors_def add_def one_def)

lemma validateMetadata_acc_labels_yields:
  "yields (\<lambda>ctx. validateMetadata_acc_labels ctx x)
     (if Kind x \<noteq> MappingNode then Some (one (Line x) ''labels must be object'')
      else pairs_emits label_errors (Content x))"
  unfolding validateMetadata_acc_labels_def
  by (intro yields_if yields_one yields_for_pairs validateMetadata_acc_label_eq)

lemmas validateMetadata_acc_labels_framed = yields_framed [where rule = validateMetadata_acc_labels, OF validateMetadata_acc_labels_yields]

lemmas validateMetadata_acc_labels_errors = yields_errors [where rule = validateMetadata_acc_labels, OF validateMetadata_acc_labels_yields]

lemma validateMetadata_acc_yields:
  "yields (\<lambda>ctx. validateMetadata_acc ctx n)
     (if Kind n \<noteq> MappingNode then Some (one (Line n) ''metadata must be object'')
      else seq_emits (required_errors validateMetadata_acc_name ''name'' n)
          (seq_emits (optional_errors validateMetadata_acc_namespace ''namespace'' n)
                     (optional_errors validateMetadata_acc_labels ''labels'' n)))"
  unfolding validateMetadata_acc_def
  by (intro yields_if yields_one yields_bind yields_requiredf yields_optional
        validateMetadata_acc_name_framed validateMetadata_acc_namespace_framed
        validateMetadata_acc_labels_framed)

lemmas validateMetadata_acc_framed = yields_framed [where rule = validateMetadata_acc, OF validateMetadata_acc_yields]

lemmas validateMetadata_acc_errors = yields_errors [where rule = validateMetadata_acc, OF validateMetadata_acc_yields]

subsection \<open>The document: what the rules append\<close>

lemma validateTop_apiVersion_yields:
  "yields (\<lambda>ctx. validateTop_apiVersion ctx x)
     (Some (if \<not> isStr x then one (Line x) ''apiVersion must be string''
            else if Value x \<noteq> ''v1''
              then one (Line x) (''apiVersion has unsupported value '' @ quoted (Value x))
            else []))"
  by (simp add: yields_def validateTop_apiVersion_def add_def one_def)

lemmas validateTop_apiVersion_framed = yields_framed [where rule = validateTop_apiVersion, OF validateTop_apiVersion_yields]

lemmas validateTop_apiVersion_errors = yields_errors [where rule = validateTop_apiVersion, OF validateTop_apiVersion_yields]

lemma validateTop_kind_yields:
  "yields (\<lambda>ctx. validateTop_kind ctx x)
     (Some (if \<not> isStr x then one (Line x) ''kind must be string''
            else if Value x \<noteq> ''Pod''
              then one (Line x) (''kind has unsupported value '' @ quoted (Value x))
            else []))"
  by (simp add: yields_def validateTop_kind_def add_def one_def)

lemmas validateTop_kind_framed = yields_framed [where rule = validateTop_kind, OF validateTop_kind_yields]

lemmas validateTop_kind_errors = yields_errors [where rule = validateTop_kind, OF validateTop_kind_yields]

lemma validateTop_steps:
  "validateTop ctx n =
     (if Kind n \<noteq> MappingNode
        then Some (add ctx (Line n) ''document must be a mapping object'')
      else required_field validateTop_apiVersion ''apiVersion'' ctx n \<bind>
           (\<lambda>ctx. required_field validateTop_kind ''kind'' ctx n \<bind>
           (\<lambda>ctx. required_field validateSpec_acc ''spec'' ctx n \<bind>
           (\<lambda>ctx. required_field validateMetadata_acc ''metadata'' ctx n \<bind>
           (\<lambda>ctx. optional_field validateSpecContainers ''spec'' ctx n)))))"
proof (cases "field n ''spec''")
  case None
  then show ?thesis
    by (simp add: validateTop_def required_field_def [of validateSpec_acc])
next
  case (Some r)
  then show ?thesis
    by (cases r)
       (simp_all add: validateTop_def required_field_def [of validateSpec_acc] optional_field_def)
qed

lemma validateTop_yields:
  "yields (\<lambda>ctx. validateTop ctx n)
     (if Kind n \<noteq> MappingNode then Some (one (Line n) ''document must be a mapping object'')
      else seq_emits (required_errors validateTop_apiVersion ''apiVersion'' n)
          (seq_emits (required_errors validateTop_kind ''kind'' n)
          (seq_emits (required_errors validateSpec_acc ''spec'' n)
          (seq_emits (required_errors validateMetadata_acc ''metadata'' n)
                     (optional_errors validateSpecContainers ''spec'' n)))))"
  unfolding validateTop_steps
  by (intro yields_if yields_one yields_bind yields_requiredf yields_optional
        validateTop_apiVersion_framed validateTop_kind_framed validateSpec_acc_framed
        validateMetadata_acc_framed validateSpecContainers_framed)

lemmas validateTop_framed = yields_framed [where rule = validateTop, OF validateTop_yields]

lemmas validateTop_errors = yields_errors [where rule = validateTop, OF validateTop_yields]

subsection \<open>Running a rule\<close>

lemma seq_emits_Some:
  "seq_emits a b = Some l \<longleftrightarrow> (\<exists>x y. a = Some x \<and> b = Some y \<and> l = x @ y)"
  by (cases a; cases b) (auto simp: seq_emits_def)

lemma yields_run:
  "yields st r \<Longrightarrow> st ctx = Some ctx' \<Longrightarrow> \<exists>l. r = Some l \<and> ctx' = ctx\<lparr>errs := errs ctx @ l\<rparr>"
  by (cases r) (auto simp: yields_def)

subsection \<open>The checks of a port\<close>

lemma asInt_scalar:
  "Kind p = ScalarNode \<Longrightarrow> asInt p =
     (case Atoi (TrimSpace (Value p)) of None \<Rightarrow> (0, False, Line p) | Some i \<Rightarrow> (i, True, Line p))"
  by (simp add: asInt_def)

lemma port_checks_parsed:
  assumes "Kind p = ScalarNode" and "Atoi (TrimSpace (Value p)) = Some i"
  shows "validateContainerPort_acc_port ctx p =
           Some (if i \<le> 0 \<or> i \<ge> 65536 then add ctx (Line p) ''containerPort value out of range''
                 else ctx)"
    and "validateContainerPort_ff_port f p =
           (if i \<le> 0 \<or> i \<ge> 65536 then fail f (Line p) ''containerPort value out of range''
            else Passed)"
    and "validateProbe_acc_port ctx p =
           Some (if i \<le> 0 \<or> i \<ge> 65536 then add ctx (Line p) ''port value out of range''
                 else ctx)"
    and "validateProbe_ff_port f prefix p =
           (if i \<le> 0 \<or> i \<ge> 65536
              then fail f (Line p) (prefix @ ''.httpGet.port value out of range'')
            else Passed)"
  using assms
  by (simp_all add: validateContainerPort_acc_port_def validateContainerPort_ff_port_def
        validateProbe_acc_port_def validateProbe_ff_port_def asInt_scalar toInt_def)

lemma validateContainerPort_acc_found:
  "Kind n = MappingNode \<Longrightarrow> field n ''containerPort'' = Some (Some cp) \<Longrightarrow>
   validateContainerPort_acc ctx n =
     validateContainerPort_acc_port ctx cp \<bind>
       (\<lambda>ctx. optional_field validateContainerPort_acc_protocol ''protocol'' ctx n)"
  by (simp add: validateContainerPort_acc_def required_field_def)

lemma validateContainerPort_ff_found:
  "Kind n = MappingNode \<Longrightarrow> field n ''containerPort'' = Some (Some cp) \<Longrightarrow>
   validateContainerPort_ff f n =
     and_then (validateContainerPort_ff_port f cp)
       (optional_ff ''protocol'' (validateContainerPort_ff_protocol f) n)"
  by (simp add: validateContainerPort_ff_def required_ff_def getField_eq)

lemma fail_not_Passed: "fail f l m \<noteq> Passed" and fail_not_Panicked: "fail f l m \<noteq> Panicked"
  by (simp_all add: fail_def)

lemma and_then_fail: "and_then (fail f l m) k = fail f l m"
  by (simp add: and_then_def fail_def)

lemma and_then_Passed: "and_then Passed k = k"
  by (simp add: and_then_def)

lemma Atoi_boundaries:
  "Atoi (TrimSpace ''0'') = Some 0" "Atoi (TrimSpace ''65536'') = Some 65536"
  "Atoi (TrimSpace ''1'') = Some 1" "Atoi (TrimSpace ''65535'') = Some 65535"
  by code_simp+

subsection \<open>The check of an image\<close>

lemma starts_with_append: "starts_with p s \<longleftrightarrow> (\<exists>r. s = p @ r)"
  by (induction p s rule: starts_with.induct) auto

lemma HasPrefix_starts_with: "HasPrefix s p \<longleftrightarrow> starts_with p s"
  unfolding HasPrefix_def starts_with_append
  by (metis append_eq_conv_conj append_take_drop_id)

lemma length_takeWhile_less:
  assumes "c \<in> set s"
  shows "length (takeWhile (\<lambda>x. x \<noteq> c) (rev s)) < length s"
proof -
  have "takeWhile (\<lambda>x. x \<noteq> c) (rev s) \<noteq> rev s"
    using assms by auto
  moreover have "length (takeWhile (\<lambda>x. x \<noteq> c) (rev s)) \<le> length (rev s)"
    by (rule length_takeWhile_le)
  moreover have "takeWhile (\<lambda>x. x \<noteq> c) (rev s) @ dropWhile (\<lambda>x. x \<noteq> c) (rev s) = rev s"
    by simp
  ultimately show ?thesis
    by (metis append_eq_conv_conj le_neq_implies_less length_rev take_all_iff order_refl)
qed

lemma LastIndex_found: "c \<in> set s \<Longrightarrow> 0 \<le> LastIndex s c"
  using length_takeWhile_less [of c s] by (simp add: LastIndex_def)

lemma slice_after_LastIndex:
  "slice_from s (LastIndex s c + 1) = rev (takeWhile (\<lambda>x. x \<noteq> c) (rev s))"
proof (cases "c \<in> set s")
  case True
  let ?k = "length (takeWhile (\<lambda>x. x \<noteq> c) (rev s))"
  have k: "?k < length s" by (rule length_takeWhile_less [OF True])
  have "nat (LastIndex s c + 1) = length s - ?k"
    using True k by (simp add: LastIndex_def)
  moreover have "takeWhile (\<lambda>x. x \<noteq> c) (rev s) = take ?k (rev s)"
    by (rule takeWhile_eq_take)
  then have "rev (takeWhile (\<lambda>x. x \<noteq> c) (rev s)) = drop (length s - ?k) s"
    by (metis rev_rev_ident take_rev)
  ultimately show ?thesis
    by (simp only: slice_from_def)
next
  case False
  then have tw: "takeWhile (\<lambda>x. x \<noteq> c) (rev s) = rev s"
    by auto
  show ?thesis
    by (simp add: slice_from_def LastIndex_def False tw)
qed

lemma image_check_acc:
  "HasPrefix v ''registry.bigbrother.io/''
     \<and> Contains (slice_from v (LastIndex v CHR ''/'' + 1)) CHR '':'' \<longleftrightarrow> image_valid v"
  by (simp add: image_valid_def last_segment_def HasPrefix_starts_with slice_after_LastIndex
        Contains_def)

lemma prefix_has_slash: "HasPrefix v ''registry.bigbrother.io/'' \<Longrightarrow> CHR ''/'' \<in> set v"
  by (auto simp: HasPrefix_starts_with starts_with_append)

lemma validateContainer_acc_image_valid:
  "isStr x \<Longrightarrow> validateContainer_acc_image ctx x =
     Some (if image_valid (Value x) then ctx
           else add ctx (Line x) (''image has invalid format '' @ quoted (Value x)))"
  using image_check_acc [of "Value x"]
  by (auto simp: validateContainer_acc_image_def Let_def)

lemma validateContainer_ff_image_valid:
  "isStr x \<Longrightarrow> validateContainer_ff_image f x =
     (if image_valid (Value x) then Passed
      else fail f (Line x) (''containers.image has invalid format '' @ quoted (Value x)))"
  using image_check_acc [of "Value x"] prefix_has_slash [of "Value x"]
    LastIndex_found [of "CHR ''/''" "Value x"]
  by (auto simp: validateContainer_ff_image_def Let_def isStr_def)

subsection \<open>Agreement of the two validators\<close>

lemma and_then_Passed_iff: "and_then a b = Passed \<longleftrightarrow> a = Passed \<and> b = Passed"
  by (cases a) (simp_all add: and_then_def)

lemma and_then_Panicked_iff:
  "and_then a b = Panicked \<longleftrightarrow> a = Panicked \<or> (a = Passed \<and> b = Panicked)"
  by (cases a) (simp_all add: and_then_def)

lemma seq_emits_None_iff: "seq_emits x y = None \<longleftrightarrow> x = None \<or> y = None"
  by (cases x; cases y) (simp_all add: seq_emits_def)

lemma seq_emits_empty_iff: "seq_emits x y = Some [] \<longleftrightarrow> x = Some [] \<and> y = Some []"
  by (cases x; cases y) (auto simp: seq_emits_def)

lemma agree_and_then: "agree a x \<Longrightarrow> agree b y \<Longrightarrow> agree (and_then a b) (seq_emits x y)"
  by (auto simp: agree_def and_then_Passed_iff and_then_Panicked_iff seq_emits_None_iff
        seq_emits_empty_iff)

lemma agree_fail: "agree (fail f l m) (Some (one l' m'))"
  by (simp add: agree_def fail_def one_def)

lemma agree_Passed: "agree Passed (Some [])"
  by (simp add: agree_def)

lemma agree_if:
  "(b \<Longrightarrow> agree r e) \<Longrightarrow> (\<not> b \<Longrightarrow> agree r' e') \<Longrightarrow> agree (if b then r else r') (if b then e else e')"
  by simp

lemma agree_required:
  assumes "wf_node n"
    and "\<And>x. field n key = Some (Some x) \<Longrightarrow> agree (rule_ff x) (errors rule x)"
  shows "agree (required_ff f path key rule_ff n) (required_errors rule key n)"
proof -
  obtain r where r: "field n key = Some r"
    using field_total [OF assms(1)] by blast
  show ?thesis
  proof (cases r)
    case None
    then show ?thesis
      using r by (simp add: required_ff_def required_errors_def getField_eq agree_def
            failRequired_def one_def)
  next
    case (Some x)
    then show ?thesis
      using r assms(2) by (simp add: required_ff_def required_errors_def getField_eq)
  qed
qed

lemma agree_optional:
  assumes "wf_node n"
    and "\<And>x. field n key = Some (Some x) \<Longrightarrow> agree (rule_ff x) (errors rule x)"
  shows "agree (optional_ff key rule_ff n) (optional_errors rule key n)"
proof -
  obtain r where r: "field n key = Some r"
    using field_total [OF assms(1)] by blast
  show ?thesis
  proof (cases r)
    case None
    then show ?thesis
      using r by (simp add: optional_ff_def optional_errors_def getField_eq agree_def)
  next
    case (Some x)
    then show ?thesis
      using r assms(2) by (simp add: optional_ff_def optional_errors_def getField_eq)
  qed
qed

lemma agree_each:
  assumes "\<And>x. x \<in> set xs \<Longrightarrow> agree (g x) (errors rule x)"
  shows "agree (for_each_ff g xs) (each_errors rule xs)"
  using assms
proof (induction xs)
  case Nil
  show ?case by (simp add: each_errors_def agree_Passed)
next
  case (Cons x xs)
  have "agree (and_then (g x) (for_each_ff g xs)) (seq_emits (errors rule x) (each_errors rule xs))"
    by (rule agree_and_then) (simp_all add: Cons)
  then show ?case by (simp add: each_errors_def)
qed

lemma agree_pairs:
  assumes "even (length xs)"
    and "\<And>k v. (k, v) \<in> set (entries xs) \<Longrightarrow> agree (g k v) (Some (h k v))"
  shows "agree (for_pairs_ff g xs) (pairs_emits h xs)"
  using assms
proof (induction xs rule: induct_list012)
  case 1
  show ?case by (simp add: agree_Passed)
next
  case (2 x)
  then show ?case by simp
next
  case (3 k v rest)
  have a: "agree (g k v) (Some (h k v))" and b: "agree (for_pairs_ff g rest) (pairs_emits h rest)"
    using 3 by simp_all
  have "pairs_emits h (k # v # rest) = seq_emits (Some (h k v)) (pairs_emits h rest)"
    by (simp add: seq_emits_def)
  then show ?case
    using agree_and_then [OF a b] by simp
qed

lemma found_iff: "x \<in> set (found n key) \<longleftrightarrow> field n key = Some (Some x)"
  by (auto simp: found_def split: option.splits)

lemma found_Some: "field n key = Some (Some x) \<Longrightarrow> found n key = [x]"
  by (simp add: found_def)

lemma rrsets_intro:
  "field n ''spec'' = Some (Some s) \<Longrightarrow> field s ''containers'' = Some (Some cs) \<Longrightarrow>
   Kind cs = SequenceNode \<Longrightarrow> c \<in> set (Content cs) \<Longrightarrow> m \<in> set (rrsets_of_container c) \<Longrightarrow>
   m \<in> set (rrsets n)"
  by (auto simp: rrsets_def found_Some)

subsection \<open>Resources and probes agree\<close>

lemma agree_rrset_entry:
  "rr_entry_ok k v \<Longrightarrow> agree (validateRRSet_ff_entry f prefix k v) (Some (rrset_entry_errors k v))"
  by (auto simp: rr_entry_ok_def validateRRSet_ff_entry_def rrset_entry_errors_def agree_def
        fail_def one_def isStr_def isInt_def split: option.splits)

lemma agree_validateRRSet:
  assumes "wf_node m" and "rr_ok m"
  shows "agree (validateRRSet_ff f m prefix) (errors validateRRSet_acc m)"
proof (cases "Kind m = MappingNode")
  case True
  have "agree (for_pairs_ff (validateRRSet_ff_entry f prefix) (Content m))
          (pairs_emits rrset_entry_errors (Content m))"
  proof (rule agree_pairs)
    show "even (length (Content m))"
      by (rule wf_node_even [OF assms(1) True])
    show "agree (validateRRSet_ff_entry f prefix k v) (Some (rrset_entry_errors k v))"
      if "(k, v) \<in> set (entries (Content m))" for k v
      using that assms(2) True by (auto simp: rr_ok_def list_all_iff intro: agree_rrset_entry)
  qed
  then show ?thesis
    using True by (simp add: validateRRSet_ff_def validateRRSet_acc_errors)
next
  case False
  then show ?thesis
    by (simp add: validateRRSet_ff_def validateRRSet_acc_errors agree_fail)
qed

lemma agree_validateResources:
  assumes "wf_node n" and "\<And>m. m \<in> set (found n ''limits'' @ found n ''requests'') \<Longrightarrow> rr_ok m"
  shows "agree (validateResources_ff f n) (errors validateResources_acc n)"
proof (cases "Kind n = MappingNode")
  case True
  have "agree (and_then
        (optional_ff ''limits'' (\<lambda>x. validateRRSet_ff f x ''containers.resources.limits'') n)
        (optional_ff ''requests'' (\<lambda>x. validateRRSet_ff f x ''containers.resources.requests'') n))
      (seq_emits (optional_errors validateRRSet_acc ''limits'' n)
                 (optional_errors validateRRSet_acc ''requests'' n))"
    by (intro agree_and_then agree_optional assms(1) agree_validateRRSet)
       (auto simp: found_iff intro: field_wf [OF assms(1)] assms(2))
  then show ?thesis
    using True by (simp add: validateResources_ff_def validateResources_acc_errors)
next
  case False
  then show ?thesis
    by (simp add: validateResources_ff_def validateResources_acc_errors agree_fail)
qed

lemma agree_probe_path:
  "agree (validateProbe_ff_path f prefix x) (errors validateProbe_acc_path x)"
  by (simp add: validateProbe_ff_path_def validateProbe_acc_path_errors agree_def fail_def one_def
        isStr_def)

lemma agree_probe_port:
  "agree (validateProbe_ff_port f prefix x) (errors validateProbe_acc_port x)"
  by (simp add: validateProbe_ff_port_def validateProbe_acc_port_errors agree_def fail_def one_def
        asInt_def toInt_def split: option.splits)

lemma agree_validateProbe:
  assumes "wf_node n"
  shows "agree (validateProbe_ff f n prefix) (errors (\<lambda>ctx n. validateProbe_acc ctx n short) n)"
proof (cases "Kind n = MappingNode")
  case True
  have hg: "agree (if Kind hg \<noteq> MappingNode
                  then fail f (Line hg) (prefix @ ''.httpGet must be object'')
                else and_then
                  (required_ff f (prefix @ ''.httpGet.path'') ''path''
                     (validateProbe_ff_path f prefix) hg)
                  (required_ff f (prefix @ ''.httpGet.port'') ''port''
                     (validateProbe_ff_port f prefix) hg))
             (errors validateProbe_acc_httpGet hg)"
    if "wf_node hg" for hg
    unfolding validateProbe_acc_httpGet_errors
    by (intro agree_if agree_fail agree_and_then agree_required that agree_probe_path
          agree_probe_port)
  have "agree (required_ff f (prefix @ ''.httpGet'') ''httpGet''
             (\<lambda>hgNode.
                if Kind hgNode \<noteq> MappingNode
                  then fail f (Line hgNode) (prefix @ ''.httpGet must be object'')
                else and_then
                  (required_ff f (prefix @ ''.httpGet.path'') ''path''
                     (validateProbe_ff_path f prefix) hgNode)
                  (required_ff f (prefix @ ''.httpGet.port'') ''port''
                     (validateProbe_ff_port f prefix) hgNode))
             n) (required_errors validateProbe_acc_httpGet ''httpGet'' n)"
    by (rule agree_required [OF assms]) (rule hg, rule field_wf [OF assms])
  then show ?thesis
    using True by (simp add: validateProbe_ff_def validateProbe_acc_errors)
next
  case False
  then show ?thesis
    by (simp add: validateProbe_ff_def validateProbe_acc_errors agree_fail)
qed

subsection \<open>Ports agree\<close>

lemma agree_containerPort_port:
  "agree (validateContainerPort_ff_port f x) (Some (containerPort_errors x))"
  by (simp add: validateContainerPort_ff_port_def containerPort_errors_def agree_def fail_def one_def
        asInt_def toInt_def split: option.splits)

lemma agree_containerPort_protocol:
  "agree (validateContainerPort_ff_protocol f x) (errors validateContainerPort_acc_protocol x)"
  by (simp add: validateContainerPort_ff_protocol_def validateContainerPort_acc_protocol_errors
        agree_def fail_def one_def isStr_def)

lemma agree_validateContainerPort:
  assumes "wf_node n"
  shows "agree (validateContainerPort_ff f n) (errors validateContainerPort_acc n)"
proof (cases "Kind n = MappingNode")
  case True
  obtain r where r: "field n ''containerPort'' = Some r"
    using field_total [OF assms] by blast
  have proto: "agree (optional_ff ''protocol'' (validateContainerPort_ff_protocol f) n)
                 (optional_errors validateContainerPort_acc_protocol ''protocol'' n)"
    by (intro agree_optional assms agree_containerPort_protocol)
  show ?thesis
  proof (cases r)
    case None
    then show ?thesis
      using True r
      by (simp add: validateContainerPort_ff_def validateContainerPort_acc_errors required_ff_def
            getField_eq failRequired_def and_then_def agree_def one_def)
  next
    case (Some cp)
    then show ?thesis
      using True r agree_and_then [OF agree_containerPort_port proto]
      by (simp add: validateContainerPort_ff_def validateContainerPort_acc_errors required_ff_def
            getField_eq)
  qed
next
  case False
  then show ?thesis
    by (simp add: validateContainerPort_ff_def validateContainerPort_acc_errors agree_fail)
qed

subsection \<open>Containers agree\<close>

lemma trim_runes_no_match:
  assumes "\<forall>w\<in>set ws. w = [] \<or> \<not> HasPrefix s w"
  shows "trim_runes ws s = s"
proof -
  have "find (\<lambda>w. w \<noteq> [] \<and> HasPrefix s w) ws = None"
    using assms by (auto simp: find_None_iff)
  then show ?thesis
    by (subst trim_runes.simps) simp
qed

lemma alnum_no_space_prefix:
  "is_lower_alnum c \<Longrightarrow> \<forall>w\<in>set space_runes. w = [] \<or> \<not> HasPrefix (c # cs) w"
  by (auto simp: space_runes_def HasPrefix_def is_lower_alnum_def is_digit_def)

lemma alnum_no_space_suffix:
  "is_lower_alnum c \<Longrightarrow> \<forall>w\<in>set (map rev space_runes). w = [] \<or> \<not> HasPrefix (c # cs) w"
  by (auto simp: space_runes_def HasPrefix_def is_lower_alnum_def is_digit_def)

lemma snake_run_last: "snake_run s b \<Longrightarrow> s \<noteq> [] \<Longrightarrow> is_lower_alnum (last s)"
  by (induction s b rule: snake_run.induct) (auto split: if_splits)

lemma snake_first: "snake s \<Longrightarrow> s \<noteq> [] \<and> is_lower_alnum (hd s)"
  by (cases s) (auto simp: snake_def split: if_splits)

lemma snake_TrimSpace:
  assumes "snake s"
  shows "TrimSpace s = s"
proof -
  obtain c cs where s: "s = c # cs" and c: "is_lower_alnum c"
    using snake_first [OF assms] by (cases s) auto
  have l: "trim_runes space_runes s = s"
    unfolding s by (rule trim_runes_no_match [OF alnum_no_space_prefix [OF c]])
  have "s \<noteq> []" using s by simp
  then have "rev s = last s # rev (butlast s)"
    by (cases s rule: rev_cases) simp_all
  then obtain d ds where r: "rev s = d # ds" and d: "d = last s"
    by blast
  have "is_lower_alnum d"
    using snake_run_last [of s False] assms \<open>s \<noteq> []\<close> d by (simp add: snake_def)
  then have t: "trim_runes (map rev space_runes) (rev s) = rev s"
    unfolding r by (rule trim_runes_no_match [OF alnum_no_space_suffix])
  show ?thesis
    by (simp add: TrimSpace_def l t)
qed

lemma agree_container_name:
  "agree (validateContainer_ff_name f x) (errors validateContainer_acc_name x)"
  using snake_TrimSpace [of "Value x"] snake_first [of "Value x"]
  by (auto simp: validateContainer_ff_name_def validateContainer_acc_name_errors agree_def fail_def
        one_def isStr_def)

lemma agree_container_image:
  "agree (validateContainer_ff_image f x) (errors validateContainer_acc_image x)"
proof (cases "isStr x")
  case True
  have "errors validateContainer_acc_image x
          = Some (if image_valid (Value x) then []
                  else one (Line x) (''image has invalid format '' @ quoted (Value x)))"
    using True image_check_acc [of "Value x"]
    by (auto simp: validateContainer_acc_image_errors)
  then show ?thesis
    by (simp add: validateContainer_ff_image_valid [OF True] agree_def fail_def one_def)
next
  case False
  then show ?thesis
    by (auto simp: validateContainer_ff_image_def validateContainer_acc_image_errors agree_def
          fail_def one_def isStr_def)
qed

lemma agree_container_ports:
  assumes "wf_node x"
  shows "agree (validateContainer_ff_ports f x) (errors validateContainer_acc_ports x)"
proof (cases "Kind x = SequenceNode")
  case True
  have "agree (for_each_ff (validateContainerPort_ff f) (Content x))
          (each_errors validateContainerPort_acc (Content x))"
    by (intro agree_each agree_validateContainerPort wf_node_Content [OF assms])
  then show ?thesis
    using True by (simp add: validateContainer_ff_ports_def validateContainer_acc_ports_errors)
next
  case False
  then show ?thesis
    by (simp add: validateContainer_ff_ports_def validateContainer_acc_ports_errors agree_fail)
qed

lemma agree_validateContainer:
  assumes "wf_node n" and "\<And>m. m \<in> set (rrsets_of_container n) \<Longrightarrow> rr_ok m"
  shows "agree (validateContainer_ff f n) (errors validateContainer_acc n)"
proof (cases "Kind n = MappingNode")
  case True
  have res: "agree (validateResources_ff f x) (errors validateResources_acc x)"
    if "field n ''resources'' = Some (Some x)" for x
  proof (rule agree_validateResources)
    show "wf_node x" by (rule field_wf [OF assms(1) that])
    show "rr_ok m" if "m \<in> set (found x ''limits'' @ found x ''requests'')" for m
      using that \<open>field n ''resources'' = Some (Some x)\<close>
      by (intro assms(2)) (auto simp: rrsets_of_container_def found_iff)
  qed
  have "agree
        (and_then (required_ff f ''containers.name'' ''name'' (validateContainer_ff_name f) n)
        (and_then (required_ff f ''containers.image'' ''image'' (validateContainer_ff_image f) n)
        (and_then (optional_ff ''ports'' (validateContainer_ff_ports f) n)
        (and_then (optional_ff ''readinessProbe''
                    (\<lambda>rpNode. validateProbe_ff f rpNode ''containers.readinessProbe'') n)
        (and_then (optional_ff ''livenessProbe''
                    (\<lambda>lpNode. validateProbe_ff f lpNode ''containers.livenessProbe'') n)
                 (required_ff f ''containers.resources'' ''resources''
                    (validateResources_ff f) n))))))
        (seq_emits (required_errors validateContainer_acc_name ''name'' n)
          (seq_emits (required_errors validateContainer_acc_image ''image'' n)
          (seq_emits (optional_errors validateContainer_acc_ports ''ports'' n)
          (seq_emits (optional_errors (\<lambda>ctx rp. validateProbe_acc ctx rp ''readinessProbe'')
                        ''readinessProbe'' n)
          (seq_emits (optional_errors (\<lambda>ctx lp. validateProbe_acc ctx lp ''livenessProbe'')
                        ''livenessProbe'' n)
                     (required_errors validateResources_acc ''resources'' n))))))"
    by (intro agree_and_then agree_required agree_optional assms(1) agree_container_name
          agree_container_image agree_container_ports agree_validateProbe res
          field_wf [OF assms(1)])
  then show ?thesis
    using True by (simp add: validateContainer_ff_def validateContainer_acc_errors)
next
  case False
  then show ?thesis
    by (simp add: validateContainer_ff_def validateContainer_acc_errors agree_fail)
qed

subsection \<open>The spec agrees\<close>

lemma agree_spec_containers:
  assumes "wf_node x"
    and "\<And>c m. Kind x = SequenceNode \<Longrightarrow> c \<in> set (Content x) \<Longrightarrow> m \<in> set (rrsets_of_container c)
           \<Longrightarrow> rr_ok m"
  shows "agree (validateSpec_ff_containers f x) (errors validateSpecContainers_containers x)"
proof (cases "Kind x = SequenceNode")
  case True
  have "agree (for_each_ff (validateContainer_ff f) (Content x))
          (each_errors validateContainer_acc (Content x))"
    by (intro agree_each agree_validateContainer wf_node_Content [OF assms(1)])
       (auto intro: assms(2) [OF True])
  then show ?thesis
    using True
    by (simp add: validateSpec_ff_containers_def validateSpecContainers_containers_errors agree_fail)
next
  case False
  then show ?thesis
    by (simp add: validateSpec_ff_containers_def validateSpecContainers_containers_errors agree_fail)
qed

lemma agree_spec_os: "agree (validateSpec_ff_os f x) (errors validateSpec_acc_os x)"
  by (simp add: validateSpec_ff_os_def validateSpec_acc_os_errors agree_def fail_def one_def
        isStr_def)

lemma agree_validateSpec:
  assumes "wf_node s"
    and "\<And>cs c m. field s ''containers'' = Some (Some cs) \<Longrightarrow> Kind cs = SequenceNode \<Longrightarrow>
           c \<in> set (Content cs) \<Longrightarrow> m \<in> set (rrsets_of_container c) \<Longrightarrow> rr_ok m"
  shows "agree (validateSpec_ff f s)
           (seq_emits (errors validateSpec_acc s) (errors validateSpecContainers s))"
proof (cases "Kind s = MappingNode")
  case True
  have "agree (and_then
        (optional_ff ''os'' (validateSpec_ff_os f) s)
        (required_ff f ''spec.containers'' ''containers'' (validateSpec_ff_containers f) s))
      (seq_emits (optional_errors validateSpec_acc_os ''os'' s)
                 (required_errors validateSpecContainers_containers ''containers'' s))"
    by (intro agree_and_then agree_optional agree_required assms(1) agree_spec_os
          agree_spec_containers field_wf [OF assms(1)])
       (auto intro: assms(2))
  then show ?thesis
    using True by (simp add: validateSpec_ff_def validateSpec_acc_errors validateSpecContainers_errors)
next
  case False
  then have "field s ''containers'' = Some None"
    by (simp add: field_def)
  then show ?thesis
    using False
    by (simp add: validateSpec_ff_def validateSpec_acc_errors validateSpecContainers_errors
          required_errors_def seq_emits_def agree_def fail_def one_def)
qed

subsection \<open>The metadata agrees\<close>

lemma agree_metadata_name:
  "agree (validateMetadata_ff_name f x) (errors validateMetadata_acc_name x)"
  by (simp add: validateMetadata_ff_name_def validateMetadata_acc_name_errors agree_def fail_def
        one_def isStr_def)

lemma agree_metadata_namespace:
  "agree (validateMetadata_ff_namespace f x) (errors validateMetadata_acc_namespace x)"
  by (simp add: validateMetadata_ff_namespace_def validateMetadata_acc_namespace_errors agree_def
        fail_def one_def isStr_def)

lemma agree_metadata_label:
  "agree (validateMetadata_ff_label f k v) (Some (label_errors k v))"
  by (simp add: validateMetadata_ff_label_def label_errors_def agree_def fail_def one_def isStr_def)

lemma agree_metadata_labels:
  assumes "wf_node x"
  shows "agree (validateMetadata_ff_labels f x) (errors validateMetadata_acc_labels x)"
proof (cases "Kind x = MappingNode")
  case True
  have "agree (for_pairs_ff (validateMetadata_ff_label f) (Content x))
          (pairs_emits label_errors (Content x))"
    by (intro agree_pairs wf_node_even [OF assms True] agree_metadata_label)
  then show ?thesis
    using True by (simp add: validateMetadata_ff_labels_def validateMetadata_acc_labels_errors)
next
  case False
  then show ?thesis
    by (simp add: validateMetadata_ff_labels_def validateMetadata_acc_labels_errors agree_fail)
qed

lemma agree_validateMetadata:
  assumes "wf_node n"
  shows "agree (validateMetadata_ff f n) (errors validateMetadata_acc n)"
proof (cases "Kind n = MappingNode")
  case True
  have "agree
        (and_then (required_ff f ''metadata.name'' ''name'' (validateMetadata_ff_name f) n)
        (and_then (optional_ff ''namespace'' (validateMetadata_ff_namespace f) n)
                  (optional_ff ''labels'' (validateMetadata_ff_labels f) n)))
        (seq_emits (required_errors validateMetadata_acc_name ''name'' n)
          (seq_emits (optional_errors validateMetadata_acc_namespace ''namespace'' n)
                     (optional_errors validateMetadata_acc_labels ''labels'' n)))"
    by (intro agree_and_then agree_required agree_optional assms agree_metadata_name
          agree_metadata_namespace agree_metadata_labels field_wf [OF assms])
  then show ?thesis
    using True by (simp add: validateMetadata_ff_def validateMetadata_acc_errors)
next
  case False
  then show ?thesis
    by (simp add: validateMetadata_ff_def validateMetadata_acc_errors agree_fail)
qed

subsection \<open>The documents agree\<close>

lemma agree_top_apiVersion:
  "agree (validateTopLevel_apiVersion f x) (errors validateTop_apiVersion x)"
  by (simp add: validateTopLevel_apiVersion_def validateTop_apiVersion_errors agree_def fail_def
        one_def isStr_def)

lemma agree_top_kind:
  "agree (validateTopLevel_kind f x) (errors validateTop_kind x)"
  by (simp add: validateTopLevel_kind_def validateTop_kind_errors agree_def fail_def one_def
        isStr_def)

lemma agree_reorder:
  assumes "agree a a'" and "agree k k'" and "agree m m'" and "agree s (seq_emits s1 s2)"
  shows "agree (and_then a (and_then k (and_then m s)))
           (seq_emits a' (seq_emits k' (seq_emits s1 (seq_emits m' s2))))"
  using assms
  by (auto simp: agree_def and_then_Passed_iff and_then_Panicked_iff seq_emits_None_iff
        seq_emits_empty_iff)

lemma agree_spec_field:
  assumes "wf_node n" and "\<And>m. m \<in> set (rrsets n) \<Longrightarrow> rr_ok m"
  shows "agree (required_ff f ''spec'' ''spec'' (validateSpec_ff f) n)
           (seq_emits (required_errors validateSpec_acc ''spec'' n)
                      (optional_errors validateSpecContainers ''spec'' n))"
proof -
  obtain r where r: "field n ''spec'' = Some r"
    using field_total [OF assms(1)] by blast
  show ?thesis
  proof (cases r)
    case None
    then show ?thesis
      using r
      by (simp add: required_ff_def getField_eq required_errors_def optional_errors_def
            seq_emits_def agree_def failRequired_def one_def)
  next
    case (Some s)
    have "agree (validateSpec_ff f s)
            (seq_emits (errors validateSpec_acc s) (errors validateSpecContainers s))"
    proof (rule agree_validateSpec)
      show "wf_node s" using field_wf [OF assms(1)] r Some by simp
      show "rr_ok m"
        if "field s ''containers'' = Some (Some cs)" and "Kind cs = SequenceNode"
          and "c \<in> set (Content cs)" and "m \<in> set (rrsets_of_container c)" for cs c m
        using that r Some by (intro assms(2) rrsets_intro [of n s cs c m]) simp_all
    qed
    then show ?thesis
      using r Some by (simp add: required_ff_def getField_eq required_errors_def optional_errors_def)
  qed
qed

lemma agree_validateTop:
  assumes "wf_node n" and "\<And>m. m \<in> set (rrsets n) \<Longrightarrow> rr_ok m"
  shows "agree (validateTopLevel f n) (errors validateTop n)"
proof (cases "Kind n = MappingNode")
  case True
  have "agree
        (and_then (required_ff f ''apiVersion'' ''apiVersion'' (validateTopLevel_apiVersion f) n)
        (and_then (required_ff f ''kind'' ''kind'' (validateTopLevel_kind f) n)
        (and_then (required_ff f ''metadata'' ''metadata'' (validateMetadata_ff f) n)
                  (required_ff f ''spec'' ''spec'' (validateSpec_ff f) n))))
        (seq_emits (required_errors validateTop_apiVersion ''apiVersion'' n)
          (seq_emits (required_errors validateTop_kind ''kind'' n)
          (seq_emits (required_errors validateSpec_acc ''spec'' n)
          (seq_emits (required_errors validateMetadata_acc ''metadata'' n)
                     (optional_errors validateSpecContainers ''spec'' n)))))"
    by (intro agree_reorder agree_required assms(1) agree_top_apiVersion agree_top_kind
          agree_validateMetadata field_wf [OF assms(1)] agree_spec_field assms(2))
  then show ?thesis
    using True by (simp add: validateTopLevel_def validateTop_errors)
next
  case False
  then show ?thesis
    by (simp add: validateTopLevel_def validateTop_errors agree_fail)
qed

subsection \<open>Every error of the accumulating validator is for a missing field or located\<close>














lemma required_fields_mem [simp]:
  "''apiVersion'' \<in> set required_fields" "''kind'' \<in> set required_fields"
  "''spec'' \<in> set required_fields" "''metadata'' \<in> set required_fields"
  "''name'' \<in> set required_fields" "''containers'' \<in> set required_fields"
  "''image'' \<in> set required_fields" "''resources'' \<in> set required_fields"
  "''containerPort'' \<in> set required_fields" "''httpGet'' \<in> set required_fields"
  "''path'' \<in> set required_fields" "''port'' \<in> set required_fields"
  by (simp_all add: required_fields_def)




























subsection \<open>Every report of the fail-fast validator is for a missing field or located\<close>

lemma fail_eq: "fail f l t = Failed (fprintfErr f l t) ''validation failed''"
  by (simp add: fail_def fprintfErr_def)

lemma sound_ff_fail: "sound_ff f n (fail f (Line n) t)"
  using subnodes_self [of n] by (auto simp: sound_ff_def fail_eq located_report_def)

lemma sound_ff_Passed: "sound_ff f n Passed"
  by (simp add: sound_ff_def)

lemma sound_ff_Panicked: "sound_ff f n Panicked"
  by (simp add: sound_ff_def)

lemma sound_ff_failRequired: "k \<in> set required_paths \<Longrightarrow> sound_ff f n (failRequired f k)"
  by (auto simp: sound_ff_def failRequired_def missing_report_def list_ex_iff)

lemma sound_ff_Content: "x \<in> set (Content n) \<Longrightarrow> sound_ff f x r \<Longrightarrow> sound_ff f n r"
  using subnodes_Content [of x n] by (fastforce simp: sound_ff_def located_report_def)

lemma sound_ff_and_then: "sound_ff f n a \<Longrightarrow> sound_ff f n b \<Longrightarrow> sound_ff f n (and_then a b)"
  by (cases a) (simp_all add: and_then_def)

lemma sound_ff_if:
  "(b \<Longrightarrow> sound_ff f n x) \<Longrightarrow> (\<not> b \<Longrightarrow> sound_ff f n y) \<Longrightarrow> sound_ff f n (if b then x else y)"
  by simp

lemma sound_ff_required:
  assumes "path \<in> set required_paths"
    and "\<And>x. field n k = Some (Some x) \<Longrightarrow> sound_ff f x (rule x)"
  shows "sound_ff f n (required_ff f path k rule n)"
proof (cases "field n k")
  case None
  then show ?thesis by (simp add: required_ff_def getField_eq sound_ff_Panicked)
next
  case (Some r)
  show ?thesis
  proof (cases r)
    case None
    then show ?thesis
      using Some assms(1) by (simp add: required_ff_def getField_eq sound_ff_failRequired)
  next
    case (Some x)
    then have f: "field n k = Some (Some x)" using \<open>field n k = Some r\<close> by simp
    then have "x \<in> set (Content n)" using field_found by blast
    then show ?thesis
      using f assms(2) [OF f] by (simp add: required_ff_def getField_eq sound_ff_Content)
  qed
qed

lemma sound_ff_optional:
  assumes "\<And>x. field n k = Some (Some x) \<Longrightarrow> sound_ff f x (rule x)"
  shows "sound_ff f n (optional_ff k rule n)"
proof (cases "field n k")
  case None
  then show ?thesis by (simp add: optional_ff_def getField_eq sound_ff_Panicked)
next
  case (Some r)
  show ?thesis
  proof (cases r)
    case None
    then show ?thesis
      using Some by (simp add: optional_ff_def getField_eq sound_ff_Passed)
  next
    case (Some x)
    then have f: "field n k = Some (Some x)" using \<open>field n k = Some r\<close> by simp
    then have "x \<in> set (Content n)" using field_found by blast
    then show ?thesis
      using f assms [OF f] by (simp add: optional_ff_def getField_eq sound_ff_Content)
  qed
qed

lemma sound_ff_each:
  assumes "\<And>x. x \<in> set xs \<Longrightarrow> sound_ff f n (g x)"
  shows "sound_ff f n (for_each_ff g xs)"
  using assms by (induction xs) (simp_all add: sound_ff_Passed sound_ff_and_then)

lemma sound_ff_pairs:
  assumes "\<And>k v. k \<in> set xs \<Longrightarrow> v \<in> set xs \<Longrightarrow> sound_ff f n (g k v)"
  shows "sound_ff f n (for_pairs_ff g xs)"
  using assms
  by (induction xs rule: induct_list012)
     (simp_all add: sound_ff_Passed sound_ff_Panicked sound_ff_and_then)

lemma required_paths_mem [simp]:
  "''apiVersion'' \<in> set required_paths" "''kind'' \<in> set required_paths"
  "''metadata'' \<in> set required_paths" "''spec'' \<in> set required_paths"
  "''metadata.name'' \<in> set required_paths" "''spec.containers'' \<in> set required_paths"
  "''containers.name'' \<in> set required_paths" "''containers.image'' \<in> set required_paths"
  "''containers.resources'' \<in> set required_paths"
  "''containers.ports.containerPort'' \<in> set required_paths"
  by (simp_all add: required_paths_def)

lemma probe_paths_mem:
  assumes "prefix = ''containers.readinessProbe'' \<or> prefix = ''containers.livenessProbe''"
  shows "prefix @ ''.httpGet'' \<in> set required_paths"
    and "prefix @ ''.httpGet.path'' \<in> set required_paths"
    and "prefix @ ''.httpGet.port'' \<in> set required_paths"
  using assms by (auto simp: required_paths_def)

lemma sound_ff_rrset_entry:
  assumes "k \<in> set (Content n)" and "v \<in> set (Content n)"
  shows "sound_ff f n (validateRRSet_ff_entry f prefix k v)"
proof -
  have k: "sound_ff f n (fail f (Line k) t)" for t
    by (rule sound_ff_Content [OF assms(1) sound_ff_fail])
  have v: "sound_ff f n (fail f (Line v) t)" for t
    by (rule sound_ff_Content [OF assms(2) sound_ff_fail])
  show ?thesis
    by (simp add: validateRRSet_ff_entry_def k v sound_ff_Passed split: option.splits)
qed

lemma sound_ff_validateRRSet: "sound_ff f n (validateRRSet_ff f n prefix)"
  unfolding validateRRSet_ff_def
  by (intro sound_ff_if sound_ff_fail sound_ff_pairs sound_ff_rrset_entry)

lemma sound_ff_validateResources: "sound_ff f n (validateResources_ff f n)"
  unfolding validateResources_ff_def
  by (intro sound_ff_if sound_ff_fail sound_ff_and_then sound_ff_optional sound_ff_validateRRSet)

lemma sound_ff_probe_path: "sound_ff f x (validateProbe_ff_path f prefix x)"
  by (simp add: validateProbe_ff_path_def sound_ff_fail sound_ff_Passed)

lemma sound_ff_probe_port: "sound_ff f x (validateProbe_ff_port f prefix x)"
  by (simp add: validateProbe_ff_port_def sound_ff_fail sound_ff_Passed split: option.splits)

lemma sound_ff_validateProbe:
  assumes "prefix = ''containers.readinessProbe'' \<or> prefix = ''containers.livenessProbe''"
  shows "sound_ff f n (validateProbe_ff f n prefix)"
  unfolding validateProbe_ff_def
  by (intro sound_ff_if sound_ff_fail sound_ff_and_then sound_ff_required sound_ff_probe_path
        sound_ff_probe_port probe_paths_mem [OF assms])

lemma sound_ff_containerPort_port: "sound_ff f x (validateContainerPort_ff_port f x)"
  by (simp add: validateContainerPort_ff_port_def sound_ff_fail sound_ff_Passed split: option.splits)

lemma sound_ff_containerPort_protocol: "sound_ff f x (validateContainerPort_ff_protocol f x)"
  by (simp add: validateContainerPort_ff_protocol_def sound_ff_fail sound_ff_Passed)

lemma sound_ff_validateContainerPort: "sound_ff f n (validateContainerPort_ff f n)"
  unfolding validateContainerPort_ff_def
  by (intro sound_ff_if sound_ff_fail sound_ff_and_then sound_ff_required sound_ff_optional
        sound_ff_containerPort_port sound_ff_containerPort_protocol) simp

lemma sound_ff_container_name: "sound_ff f x (validateContainer_ff_name f x)"
  by (simp add: validateContainer_ff_name_def sound_ff_fail sound_ff_Passed)

lemma sound_ff_container_image: "sound_ff f x (validateContainer_ff_image f x)"
  by (simp add: validateContainer_ff_image_def Let_def sound_ff_fail sound_ff_Passed)

lemma sound_ff_container_ports: "sound_ff f x (validateContainer_ff_ports f x)"
  unfolding validateContainer_ff_ports_def
  by (intro sound_ff_if sound_ff_fail sound_ff_each)
     (rule sound_ff_Content, assumption, rule sound_ff_validateContainerPort)

lemma sound_ff_validateContainer: "sound_ff f n (validateContainer_ff f n)"
  unfolding validateContainer_ff_def
  by (intro sound_ff_if sound_ff_fail sound_ff_and_then sound_ff_required sound_ff_optional
        sound_ff_container_name sound_ff_container_image sound_ff_container_ports
        sound_ff_validateProbe sound_ff_validateResources) simp_all

lemma sound_ff_spec_os: "sound_ff f x (validateSpec_ff_os f x)"
  by (simp add: validateSpec_ff_os_def sound_ff_fail sound_ff_Passed)

lemma sound_ff_spec_containers: "sound_ff f x (validateSpec_ff_containers f x)"
  unfolding validateSpec_ff_containers_def
  by (intro sound_ff_if sound_ff_fail sound_ff_each)
     (rule sound_ff_Content, assumption, rule sound_ff_validateContainer)

lemma sound_ff_validateSpec: "sound_ff f n (validateSpec_ff f n)"
  unfolding validateSpec_ff_def
  by (intro sound_ff_if sound_ff_fail sound_ff_and_then sound_ff_required sound_ff_optional
        sound_ff_spec_os sound_ff_spec_containers) simp

lemma sound_ff_metadata_name: "sound_ff f x (validateMetadata_ff_name f x)"
  by (simp add: validateMetadata_ff_name_def sound_ff_fail sound_ff_Passed)

lemma sound_ff_metadata_namespace: "sound_ff f x (validateMetadata_ff_namespace f x)"
  by (simp add: validateMetadata_ff_namespace_def sound_ff_fail sound_ff_Passed)

lemma sound_ff_metadata_label:
  assumes "k \<in> set (Content n)" and "v \<in> set (Content n)"
  shows "sound_ff f n (validateMetadata_ff_label f k v)"
proof -
  have k: "sound_ff f n (fail f (Line k) t)" for t
    by (rule sound_ff_Content [OF assms(1) sound_ff_fail])
  have v: "sound_ff f n (fail f (Line v) t)" for t
    by (rule sound_ff_Content [OF assms(2) sound_ff_fail])
  show ?thesis
    by (simp add: validateMetadata_ff_label_def k v sound_ff_Passed)
qed

lemma sound_ff_metadata_labels: "sound_ff f x (validateMetadata_ff_labels f x)"
  unfolding validateMetadata_ff_labels_def
  by (intro sound_ff_if sound_ff_fail sound_ff_pairs sound_ff_metadata_label)

lemma sound_ff_validateMetadata: "sound_ff f n (validateMetadata_ff f n)"
  unfolding validateMetadata_ff_def
  by (intro sound_ff_if sound_ff_fail sound_ff_and_then sound_ff_required sound_ff_optional
        sound_ff_metadata_name sound_ff_metadata_namespace sound_ff_metadata_labels) simp

lemma sound_ff_top_apiVersion: "sound_ff f x (validateTopLevel_apiVersion f x)"
  by (simp add: validateTopLevel_apiVersion_def sound_ff_fail sound_ff_Passed)

lemma sound_ff_top_kind: "sound_ff f x (validateTopLevel_kind f x)"
  by (simp add: validateTopLevel_kind_def sound_ff_fail sound_ff_Passed)

lemma sound_ff_validateTopLevel: "sound_ff f n (validateTopLevel f n)"
  unfolding validateTopLevel_def
  by (intro sound_ff_if sound_ff_fail sound_ff_and_then sound_ff_required sound_ff_top_apiVersion
        sound_ff_top_kind sound_ff_validateMetadata sound_ff_validateSpec) simp_all

subsection \<open>On a tree of the parser the accumulating validator returns\<close>

lemma returns_seq: "a \<noteq> None \<Longrightarrow> b \<noteq> None \<Longrightarrow> seq_emits a b \<noteq> None"
  by (simp add: seq_emits_None_iff)

lemma returns_if: "(c \<Longrightarrow> x \<noteq> None) \<Longrightarrow> (\<not> c \<Longrightarrow> y \<noteq> None) \<Longrightarrow> (if c then x else y) \<noteq> None"
  by simp

lemma returns_required:
  assumes "wf_node n" and "\<And>x. wf_node x \<Longrightarrow> errors rule x \<noteq> None"
  shows "required_errors rule k n \<noteq> None"
proof -
  obtain r where r: "field n k = Some r"
    using field_total [OF assms(1)] by blast
  show ?thesis
    using r assms(2) field_wf [OF assms(1)]
    by (cases r) (simp_all add: required_errors_def)
qed

lemma returns_optional:
  assumes "wf_node n" and "\<And>x. wf_node x \<Longrightarrow> errors rule x \<noteq> None"
  shows "optional_errors rule k n \<noteq> None"
proof -
  obtain r where r: "field n k = Some r"
    using field_total [OF assms(1)] by blast
  show ?thesis
    using r assms(2) field_wf [OF assms(1)]
    by (cases r) (simp_all add: optional_errors_def)
qed

lemma returns_each:
  assumes "\<And>x. x \<in> set xs \<Longrightarrow> errors rule x \<noteq> None"
  shows "each_errors rule xs \<noteq> None"
  using assms by (induction xs) (simp_all add: each_errors_def seq_emits_None_iff)

lemma returns_pairs: "even (length xs) \<Longrightarrow> pairs_emits g xs \<noteq> None"
  by (induction xs rule: induct_list012) simp_all

lemma returns_validateRRSet: "wf_node n \<Longrightarrow> errors validateRRSet_acc n \<noteq> None"
  using returns_pairs [OF wf_node_even, of n rrset_entry_errors]
  by (auto simp: validateRRSet_acc_errors)

lemma returns_validateResources: "wf_node n \<Longrightarrow> errors validateResources_acc n \<noteq> None"
  unfolding validateResources_acc_errors
  by (intro returns_if returns_seq returns_optional returns_validateRRSet) simp_all

lemma returns_probe_httpGet: "wf_node x \<Longrightarrow> errors validateProbe_acc_httpGet x \<noteq> None"
  unfolding validateProbe_acc_httpGet_errors
  by (intro returns_if returns_seq returns_required)
     (simp_all add: validateProbe_acc_path_errors validateProbe_acc_port_errors)

lemma returns_validateProbe:
  "wf_node n \<Longrightarrow> errors (\<lambda>ctx n. validateProbe_acc ctx n short) n \<noteq> None"
  unfolding validateProbe_acc_errors
  by (intro returns_if returns_required returns_probe_httpGet) simp_all

lemma returns_validateContainerPort:
  assumes "wf_node n"
  shows "errors validateContainerPort_acc n \<noteq> None"
proof -
  obtain r where r: "field n ''containerPort'' = Some r"
    using field_total [OF assms] by blast
  have "optional_errors validateContainerPort_acc_protocol ''protocol'' n \<noteq> None"
    by (intro returns_optional assms) (simp add: validateContainerPort_acc_protocol_errors)
  then show ?thesis
    using r by (cases r) (auto simp: validateContainerPort_acc_errors seq_emits_def)
qed

lemma returns_container_ports: "wf_node x \<Longrightarrow> errors validateContainer_acc_ports x \<noteq> None"
  unfolding validateContainer_acc_ports_errors
  by (intro returns_if returns_each returns_validateContainerPort)
     (simp_all add: wf_node_Content)

lemma returns_validateContainer: "wf_node n \<Longrightarrow> errors validateContainer_acc n \<noteq> None"
  unfolding validateContainer_acc_errors
  by (intro returns_if returns_seq returns_required returns_optional returns_container_ports
        returns_validateProbe returns_validateResources)
     (simp_all add: validateContainer_acc_name_errors validateContainer_acc_image_errors)

lemma returns_spec_containers:
  "wf_node x \<Longrightarrow> errors validateSpecContainers_containers x \<noteq> None"
  unfolding validateSpecContainers_containers_errors
  by (intro returns_if returns_each returns_validateContainer) (simp_all add: wf_node_Content)

lemma returns_validateSpecContainers: "wf_node n \<Longrightarrow> errors validateSpecContainers n \<noteq> None"
  unfolding validateSpecContainers_errors
  by (intro returns_required returns_spec_containers)

lemma returns_validateSpec: "wf_node n \<Longrightarrow> errors validateSpec_acc n \<noteq> None"
  unfolding validateSpec_acc_errors
  by (intro returns_if returns_optional) (simp_all add: validateSpec_acc_os_errors)

lemma returns_metadata_labels: "wf_node x \<Longrightarrow> errors validateMetadata_acc_labels x \<noteq> None"
  using returns_pairs [OF wf_node_even, of x label_errors]
  by (auto simp: validateMetadata_acc_labels_errors)

lemma returns_validateMetadata: "wf_node n \<Longrightarrow> errors validateMetadata_acc n \<noteq> None"
  unfolding validateMetadata_acc_errors
  by (intro returns_if returns_seq returns_required returns_optional returns_metadata_labels)
     (simp_all add: validateMetadata_acc_name_errors validateMetadata_acc_namespace_errors)

lemma returns_validateTop: "wf_node n \<Longrightarrow> errors validateTop n \<noteq> None"
  unfolding validateTop_errors
  by (intro returns_if returns_seq returns_required returns_optional returns_validateSpec
        returns_validateMetadata returns_validateSpecContainers)
     (simp_all add: validateTop_apiVersion_errors validateTop_kind_errors)

lemma validateTop_returns:
  assumes "wf_node n"
  shows "\<exists>l. errors validateTop n = Some l \<and> validateTop ctx n = Some (ctx\<lparr>errs := errs ctx @ l\<rparr>)"
proof -
  obtain l where l: "errors validateTop n = Some l"
    using returns_validateTop [OF assms] by blast
  then show ?thesis
    using yieldsD [OF validateTop_framed, of ctx n] by simp
qed

subsection \<open>On a tree of the parser the fail-fast validator returns\<close>

lemma safe_and_then: "a \<noteq> Panicked \<Longrightarrow> b \<noteq> Panicked \<Longrightarrow> and_then a b \<noteq> Panicked"
  by (simp add: and_then_Panicked_iff)

lemma safe_if:
  "(c \<Longrightarrow> x \<noteq> Panicked) \<Longrightarrow> (\<not> c \<Longrightarrow> y \<noteq> Panicked) \<Longrightarrow> (if c then x else y) \<noteq> Panicked"
  by simp

lemma safe_required:
  assumes "wf_node n" and "\<And>x. wf_node x \<Longrightarrow> rule x \<noteq> Panicked"
  shows "required_ff f path k rule n \<noteq> Panicked"
proof -
  obtain r where r: "field n k = Some r"
    using field_total [OF assms(1)] by blast
  show ?thesis
    using r assms(2) field_wf [OF assms(1)]
    by (cases r) (simp_all add: required_ff_def getField_eq failRequired_def)
qed

lemma safe_optional:
  assumes "wf_node n" and "\<And>x. wf_node x \<Longrightarrow> rule x \<noteq> Panicked"
  shows "optional_ff k rule n \<noteq> Panicked"
proof -
  obtain r where r: "field n k = Some r"
    using field_total [OF assms(1)] by blast
  show ?thesis
    using r assms(2) field_wf [OF assms(1)]
    by (cases r) (simp_all add: optional_ff_def getField_eq)
qed

lemma safe_each:
  assumes "\<And>x. x \<in> set xs \<Longrightarrow> g x \<noteq> Panicked"
  shows "for_each_ff g xs \<noteq> Panicked"
  using assms by (induction xs) (simp_all add: and_then_Panicked_iff)

lemma safe_pairs:
  assumes "even (length xs)" and "\<And>k v. g k v \<noteq> Panicked"
  shows "for_pairs_ff g xs \<noteq> Panicked"
  using assms by (induction xs rule: induct_list012) (simp_all add: and_then_Panicked_iff)

lemma safe_rrset_entry: "validateRRSet_ff_entry f prefix k v \<noteq> Panicked"
  by (simp add: validateRRSet_ff_entry_def fail_not_Panicked split: option.splits)

lemma safe_validateRRSet: "wf_node n \<Longrightarrow> validateRRSet_ff f n prefix \<noteq> Panicked"
  by (simp add: validateRRSet_ff_def fail_not_Panicked safe_pairs safe_rrset_entry wf_node_even)

lemma safe_validateResources: "wf_node n \<Longrightarrow> validateResources_ff f n \<noteq> Panicked"
  unfolding validateResources_ff_def
  by (intro safe_if safe_and_then safe_optional safe_validateRRSet fail_not_Panicked)

lemma safe_probe_path: "validateProbe_ff_path f prefix x \<noteq> Panicked"
  by (simp add: validateProbe_ff_path_def fail_not_Panicked)

lemma safe_probe_port: "validateProbe_ff_port f prefix x \<noteq> Panicked"
  by (simp add: validateProbe_ff_port_def fail_not_Panicked split: option.splits)

lemma safe_validateProbe: "wf_node n \<Longrightarrow> validateProbe_ff f n prefix \<noteq> Panicked"
  unfolding validateProbe_ff_def
  by (intro safe_if safe_and_then safe_required fail_not_Panicked safe_probe_path safe_probe_port)

lemma safe_containerPort_port: "validateContainerPort_ff_port f x \<noteq> Panicked"
  by (simp add: validateContainerPort_ff_port_def fail_not_Panicked split: option.splits)

lemma safe_containerPort_protocol: "validateContainerPort_ff_protocol f x \<noteq> Panicked"
  by (simp add: validateContainerPort_ff_protocol_def fail_not_Panicked)

lemma safe_validateContainerPort: "wf_node n \<Longrightarrow> validateContainerPort_ff f n \<noteq> Panicked"
  unfolding validateContainerPort_ff_def
  by (intro safe_if safe_and_then safe_required safe_optional fail_not_Panicked
        safe_containerPort_port safe_containerPort_protocol)

lemma safe_container_name: "validateContainer_ff_name f x \<noteq> Panicked"
  by (simp add: validateContainer_ff_name_def fail_not_Panicked)

lemma safe_container_image: "validateContainer_ff_image f x \<noteq> Panicked"
  by (simp add: validateContainer_ff_image_def Let_def fail_not_Panicked)

lemma safe_container_ports: "wf_node x \<Longrightarrow> validateContainer_ff_ports f x \<noteq> Panicked"
  unfolding validateContainer_ff_ports_def
  by (intro safe_if safe_each safe_validateContainerPort fail_not_Panicked)
     (simp add: wf_node_Content)

lemma safe_validateContainer: "wf_node n \<Longrightarrow> validateContainer_ff f n \<noteq> Panicked"
  unfolding validateContainer_ff_def
  by (intro safe_if safe_and_then safe_required safe_optional fail_not_Panicked
        safe_container_name safe_container_image safe_container_ports safe_validateProbe
        safe_validateResources)

lemma safe_spec_os: "validateSpec_ff_os f x \<noteq> Panicked"
  by (simp add: validateSpec_ff_os_def fail_not_Panicked)

lemma safe_spec_containers: "wf_node x \<Longrightarrow> validateSpec_ff_containers f x \<noteq> Panicked"
  unfolding validateSpec_ff_containers_def
  by (intro safe_if safe_each safe_validateContainer fail_not_Panicked)
     (simp add: wf_node_Content)

lemma safe_validateSpec: "wf_node n \<Longrightarrow> validateSpec_ff f n \<noteq> Panicked"
  unfolding validateSpec_ff_def
  by (intro safe_if safe_and_then safe_required safe_optional fail_not_Panicked safe_spec_os
        safe_spec_containers)

lemma safe_metadata_label: "validateMetadata_ff_label f k v \<noteq> Panicked"
  by (simp add: validateMetadata_ff_label_def fail_not_Panicked)

lemma safe_metadata_labels: "wf_node x \<Longrightarrow> validateMetadata_ff_labels f x \<noteq> Panicked"
  by (simp add: validateMetadata_ff_labels_def fail_not_Panicked safe_pairs safe_metadata_label
        wf_node_even)

lemma safe_validateMetadata: "wf_node n \<Longrightarrow> validateMetadata_ff f n \<noteq> Panicked"
  unfolding validateMetadata_ff_def
  by (intro safe_if safe_and_then safe_required safe_optional fail_not_Panicked
        safe_metadata_labels)
     (simp_all add: validateMetadata_ff_name_def validateMetadata_ff_namespace_def
        fail_not_Panicked)

lemma safe_validateTopLevel: "wf_node n \<Longrightarrow> validateTopLevel f n \<noteq> Panicked"
  unfolding validateTopLevel_def
  by (intro safe_if safe_and_then safe_required fail_not_Panicked safe_validateMetadata
        safe_validateSpec)
     (simp_all add: validateTopLevel_apiVersion_def validateTopLevel_kind_def fail_not_Panicked)

subsection \<open>The format of a report\<close>

lemma report_line_fprintfErr: "fprintfErr f l t = report_line f \<lparr>line = l, msg = t\<rparr>"
  by (simp add: fprintfErr_def report_line_def)

lemma failRequired_report:
  "failRequired f k = Failed (report_line f \<lparr>line = 0, msg = k @ '' is required''\<rparr>) ''required field missing''"
  by (simp add: failRequired_def report_line_def)

subsection \<open>A field missing in the document\<close>


subsection \<open>The document rule, with \<open>spec\<close> and \<open>metadata\<close> present\<close>

lemma validateTop_found:
  assumes "Kind n = MappingNode" and "field n ''spec'' = Some (Some s)"
    and "field n ''metadata'' = Some (Some m)"
  shows "errors validateTop n =
           seq_emits (required_errors validateTop_apiVersion ''apiVersion'' n)
          (seq_emits (required_errors validateTop_kind ''kind'' n)
          (seq_emits (errors validateSpec_acc s)
          (seq_emits (errors validateMetadata_acc m) (errors validateSpecContainers s))))"
  using assms by (simp add: validateTop_errors required_errors_def optional_errors_def)

lemma validateTopLevel_found:
  assumes "Kind n = MappingNode" and "field n ''spec'' = Some (Some s)"
    and "field n ''metadata'' = Some (Some m)"
  shows "validateTopLevel f n =
           and_then (required_ff f ''apiVersion'' ''apiVersion'' (validateTopLevel_apiVersion f) n)
          (and_then (required_ff f ''kind'' ''kind'' (validateTopLevel_kind f) n)
          (and_then (validateMetadata_ff f m) (validateSpec_ff f s)))"
  using assms by (simp add: validateTopLevel_def required_ff_def getField_eq)

subsection \<open>No other rule of the document reports the range violation of \<open>containers\<close>\<close>

lemma quiet_seq: "quiet a \<Longrightarrow> quiet b \<Longrightarrow> quiet (seq_emits a b)"
  by (auto simp: quiet_def seq_emits_Some)

lemma quiet_if: "(c \<Longrightarrow> quiet x) \<Longrightarrow> (\<not> c \<Longrightarrow> quiet y) \<Longrightarrow> quiet (if c then x else y)"
  by simp

lemma quiet_one: "t \<noteq> ''containers value out of range'' \<Longrightarrow> quiet (Some (one l t))"
  by (simp add: quiet_def one_def)

lemma quiet_required:
  assumes "k @ '' is required'' \<noteq> ''containers value out of range''"
    and "\<And>x. quiet (errors rule x)"
  shows "quiet (required_errors rule k n)"
  using assms by (auto simp: required_errors_def quiet_def one_def split: option.splits)

lemma quiet_optional:
  assumes "\<And>x. quiet (errors rule x)"
  shows "quiet (optional_errors rule k n)"
  using assms by (auto simp: optional_errors_def quiet_def split: option.splits)

lemma quiet_pairs:
  assumes "\<And>k v. quiet (Some (g k v))"
  shows "quiet (pairs_emits g xs)"
proof (induction xs rule: induct_list012)
  case (3 k v rest)
  have "quiet (seq_emits (Some (g k v)) (pairs_emits g rest))"
    by (rule quiet_seq [OF assms 3(1)])
  then show ?case by (simp add: seq_emits_def)
qed (simp_all add: quiet_def)

lemma quiet_top_apiVersion: "quiet (errors validateTop_apiVersion x)"
  by (simp add: validateTop_apiVersion_errors quiet_def one_def)

lemma quiet_top_kind: "quiet (errors validateTop_kind x)"
  by (simp add: validateTop_kind_errors quiet_def one_def)

lemma quiet_validateSpec: "quiet (errors validateSpec_acc n)"
  unfolding validateSpec_acc_errors
  by (intro quiet_if quiet_one quiet_optional) (simp_all add: validateSpec_acc_os_errors quiet_def one_def)

lemma quiet_metadata_labels: "quiet (errors validateMetadata_acc_labels x)"
  unfolding validateMetadata_acc_labels_errors
  by (intro quiet_if quiet_one quiet_pairs) (auto simp: label_errors_def quiet_def one_def)

lemma quiet_validateMetadata: "quiet (errors validateMetadata_acc n)"
  unfolding validateMetadata_acc_errors
  by (intro quiet_if quiet_one quiet_seq quiet_required quiet_optional quiet_metadata_labels)
     (simp_all add: validateMetadata_acc_name_errors validateMetadata_acc_namespace_errors
        quiet_def one_def)

section \<open>The end-to-end scenario\<close>

text \<open>
  Claim C1. The document with \<open>apiVersion: v1\<close>, \<open>kind: Pod\<close>, \<open>metadata.name: "web"\<close> and
  one container with name \<open>web_app\<close>, image \<open>registry.bigbrother.io/app:v1\<close> and empty
  resources is accepted by both validators, whatever the name of the file: the
  accumulating one records no error, its \<open>flush\<close> writes nothing and returns 0; the
  fail-fast one returns \<open>nil\<close> and writes nothing, so that the process exits with 0.
\<close>

theorem pod_doc_accepted:
  "validateTop \<lparr>file = f, errs = []\<rparr> pod_doc = Some \<lparr>file = f, errs = []\<rparr>
   \<and> run_acc f pod_doc = Some ([], 0)
   \<and> validateTopLevel f pod_doc = Passed
   \<and> run_ff f pod_doc = Some ([], 0)"
proof -
  have acc: "validateTop \<lparr>file = f, errs = []\<rparr> pod_doc = Some \<lparr>file = f, errs = []\<rparr>"
    by code_simp
  have ff: "validateTopLevel f pod_doc = Passed"
    by code_simp
  show ?thesis
    by (simp add: acc ff run_acc_def run_ff_def flush_def)
qed

theorem pod_doc_accepted_witness:
  "run_acc ''pod.yaml'' pod_doc = Some ([], 0) \<and> run_ff ''pod.yaml'' pod_doc = Some ([], 0)"
  using pod_doc_accepted [of "''pod.yaml''"] by blast

section \<open>A node of the wrong kind\<close>

text \<open>
  Claim C3 says that a node of the wrong kind gets exactly one error and that nothing
  else is recorded for it. The accumulating validator breaks this for \<open>spec\<close>: after
  \<open>validateSpec\<close> has recorded \<open>spec must be object\<close> and returned, \<open>validateTop\<close> gives
  the same node to \<open>validateSpecContainers\<close>, where \<open>field\<close> finds nothing in a node
  that is no mapping, and \<open>containers is required\<close> is recorded as well. So whenever the
  document is a mapping and its \<open>spec\<close> is not, the accumulator holds both errors, the
  second after those of \<open>metadata\<close>.
\<close>

theorem shape_failed_spec_two_errors:
  assumes "Kind n = MappingNode" and "field n ''spec'' = Some (Some s)"
    and "Kind s \<noteq> MappingNode" and "validateTop ctx n = Some ctx'"
  shows "\<exists>a m. errs ctx' = errs ctx @ a @ [\<lparr>line = Line s, msg = ''spec must be object''\<rparr>]
                   @ m @ [\<lparr>line = 0, msg = ''containers is required''\<rparr>]"
proof -
  have spec: "required_errors validateSpec_acc ''spec'' n = Some (one (Line s) ''spec must be object'')"
    using assms by (simp add: required_errors_def validateSpec_acc_errors)
  have "field s ''containers'' = Some None"
    using assms(3) by (simp add: field_def)
  then have cont: "optional_errors validateSpecContainers ''spec'' n
      = Some (one 0 ''containers is required'')"
    using assms by (simp add: optional_errors_def validateSpecContainers_errors required_errors_def)
  obtain l where l: "errors validateTop n = Some l" and c: "ctx' = ctx\<lparr>errs := errs ctx @ l\<rparr>"
    using yields_run [OF validateTop_framed assms(4)] by blast
  from l obtain a k m
    where "l = a @ k @ one (Line s) ''spec must be object'' @ m @ one 0 ''containers is required''"
    unfolding validateTop_errors spec cont using assms(1)
    by (auto simp: seq_emits_Some)
  then have "errs ctx' = errs ctx @ (a @ k) @ [\<lparr>line = Line s, msg = ''spec must be object''\<rparr>]
                   @ m @ [\<lparr>line = 0, msg = ''containers is required''\<rparr>]"
    by (simp add: c one_def)
  then show ?thesis by blast
qed

text \<open>
  On the document with \<open>spec: "x"\<close> the accumulating validator records the two errors,
  where the fail-fast validator reports the first one only.
\<close>

theorem shape_failed_spec_two_errors_witness:
  "validateTop \<lparr>file = ''pod.yaml'', errs = []\<rparr> scalar_spec_doc
     = Some \<lparr>file = ''pod.yaml'',
             errs = [\<lparr>line = 5, msg = ''spec must be object''\<rparr>,
                     \<lparr>line = 0, msg = ''containers is required''\<rparr>]\<rparr>
   \<and> (\<exists>a m. [\<lparr>line = 5, msg = ''spec must be object''\<rparr>, \<lparr>line = 0, msg = ''containers is required''\<rparr>]
         = a @ [\<lparr>line = 5, msg = ''spec must be object''\<rparr>] @ m @ [\<lparr>line = 0, msg = ''containers is required''\<rparr>])
   \<and> validateTopLevel ''pod.yaml'' scalar_spec_doc
     = Failed (''pod.yaml:5 spec must be object'' @ [CHR 0x0A]) ''validation failed''"
proof -
  have h1: "Kind scalar_spec_doc = MappingNode" by code_simp
  have h2: "field scalar_spec_doc ''spec'' = Some (Some (str_node ''x'' 5))" by code_simp
  have h3: "Kind (str_node ''x'' 5) \<noteq> MappingNode" by code_simp
  have h4: "validateTop \<lparr>file = ''pod.yaml'', errs = []\<rparr> scalar_spec_doc
     = Some \<lparr>file = ''pod.yaml'',
             errs = [\<lparr>line = 5, msg = ''spec must be object''\<rparr>,
                     \<lparr>line = 0, msg = ''containers is required''\<rparr>]\<rparr>"
    by code_simp
  have h5: "validateTopLevel ''pod.yaml'' scalar_spec_doc
     = Failed (''pod.yaml:5 spec must be object'' @ [CHR 0x0A]) ''validation failed''"
    by code_simp
  have l: "Line (str_node ''x'' 5) = 5" by code_simp
  show ?thesis
    using shape_failed_spec_two_errors [OF h1 h2 h3 h4] h4 h5 by (simp add: l)
qed

section \<open>The bounds of a port\<close>

text \<open>
  Claim C6. In an element of \<open>ports\<close> whose \<open>containerPort\<close> is a scalar with the text
  \<open>0\<close> or \<open>65536\<close>, both validators find a range violation at the line of that scalar:
  the accumulating one records \<open>containerPort value out of range\<close> and goes on to
  \<open>protocol\<close>, the fail-fast one fails with that message. With the text \<open>1\<close> or \<open>65535\<close>
  the check of \<open>containerPort\<close> records nothing: what is left of the rule is the check
  of \<open>protocol\<close>. The check of \<open>httpGet.port\<close> in a probe judges the same four values
  the same way.
\<close>

theorem port_boundaries:
  assumes "Kind n = MappingNode" and "field n ''containerPort'' = Some (Some cp)"
    and "Kind cp = ScalarNode"
  shows "(Value cp \<in> {''0'', ''65536''} \<longrightarrow>
            validateContainerPort_acc ctx n
              = optional_field validateContainerPort_acc_protocol ''protocol''
                  (add ctx (Line cp) ''containerPort value out of range'') n
          \<and> validateContainerPort_ff f n = fail f (Line cp) ''containerPort value out of range''
          \<and> validateProbe_acc_port ctx cp = Some (add ctx (Line cp) ''port value out of range'')
          \<and> validateProbe_ff_port f prefix cp
              = fail f (Line cp) (prefix @ ''.httpGet.port value out of range''))
       \<and> (Value cp \<in> {''1'', ''65535''} \<longrightarrow>
            validateContainerPort_acc ctx n
              = optional_field validateContainerPort_acc_protocol ''protocol'' ctx n
          \<and> validateContainerPort_ff f n
              = optional_ff ''protocol'' (validateContainerPort_ff_protocol f) n
          \<and> validateProbe_acc_port ctx cp = Some ctx
          \<and> validateProbe_ff_port f prefix cp = Passed)"
proof -
  have out: "validateContainerPort_acc ctx n
              = optional_field validateContainerPort_acc_protocol ''protocol''
                  (add ctx (Line cp) ''containerPort value out of range'') n
          \<and> validateContainerPort_ff f n = fail f (Line cp) ''containerPort value out of range''
          \<and> validateProbe_acc_port ctx cp = Some (add ctx (Line cp) ''port value out of range'')
          \<and> validateProbe_ff_port f prefix cp
              = fail f (Line cp) (prefix @ ''.httpGet.port value out of range'')"
    if "Atoi (TrimSpace (Value cp)) = Some i" and "i \<le> 0 \<or> i \<ge> 65536" for i
    using that
    by (simp add: validateContainerPort_acc_found [OF assms(1,2)]
          validateContainerPort_ff_found [OF assms(1,2)]
          port_checks_parsed [OF assms(3) that(1)] and_then_fail)
  have inside: "validateContainerPort_acc ctx n
              = optional_field validateContainerPort_acc_protocol ''protocol'' ctx n
          \<and> validateContainerPort_ff f n
              = optional_ff ''protocol'' (validateContainerPort_ff_protocol f) n
          \<and> validateProbe_acc_port ctx cp = Some ctx
          \<and> validateProbe_ff_port f prefix cp = Passed"
    if "Atoi (TrimSpace (Value cp)) = Some i" and "0 < i" and "i < 65536" for i
    using that
    by (simp add: validateContainerPort_acc_found [OF assms(1,2)]
          validateContainerPort_ff_found [OF assms(1,2)]
          port_checks_parsed [OF assms(3) that(1)] and_then_Passed)
  show ?thesis
    using out [of 0] out [of 65536] inside [of 1] inside [of 65535]
    by (auto simp: Atoi_boundaries)
qed
text \<open>The four values, in an element of \<open>ports\<close> that has no \<open>protocol\<close>.\<close>

theorem port_boundaries_witness:
  "validateContainerPort_acc \<lparr>file = ''pod.yaml'', errs = []\<rparr> (port_item (int_node ''0'' 3))
     = Some \<lparr>file = ''pod.yaml'', errs = [\<lparr>line = 3, msg = ''containerPort value out of range''\<rparr>]\<rparr>
   \<and> validateContainerPort_acc \<lparr>file = ''pod.yaml'', errs = []\<rparr> (port_item (int_node ''65536'' 3))
     = Some \<lparr>file = ''pod.yaml'', errs = [\<lparr>line = 3, msg = ''containerPort value out of range''\<rparr>]\<rparr>
   \<and> validateContainerPort_acc \<lparr>file = ''pod.yaml'', errs = []\<rparr> (port_item (int_node ''1'' 3))
     = Some \<lparr>file = ''pod.yaml'', errs = []\<rparr>
   \<and> validateContainerPort_acc \<lparr>file = ''pod.yaml'', errs = []\<rparr> (port_item (int_node ''65535'' 3))
     = Some \<lparr>file = ''pod.yaml'', errs = []\<rparr>
   \<and> validateContainerPort_ff ''pod.yaml'' (port_item (int_node ''65536'' 3))
     = Failed (''pod.yaml:3 containerPort value out of range'' @ [CHR 0x0A]) ''validation failed''
   \<and> validateContainerPort_ff ''pod.yaml'' (port_item (int_node ''65535'' 3)) = Passed"
proof -
  have k: "Kind (port_item cp) = MappingNode" for cp
    by (simp add: port_item_def map_node_def)
  have f: "field (port_item cp) ''containerPort'' = Some (Some cp)" for cp
    by (simp add: port_item_def map_node_def field_def str_node_def)
  have s: "Kind (int_node v 3) = ScalarNode" "Value (int_node v 3) = v" "Line (int_node v 3) = 3" for v
    by (simp_all add: int_node_def)
  have p: "field (port_item cp) ''protocol'' = Some None" for cp
    by (simp add: port_item_def map_node_def field_def str_node_def)
  have o: "optional_field r ''protocol'' c (port_item cp) = Some c" for r c cp
    by (simp add: optional_field_def p)
  have o': "optional_ff ''protocol'' r (port_item cp) = Passed" for r cp
    by (simp add: optional_ff_def getField_eq p)
  have d: "fmt_d 3 = ''3''"
    by code_simp
  show ?thesis
    using port_boundaries [OF k f s(1), of "''0''" "\<lparr>file = ''pod.yaml'', errs = []\<rparr>" "''pod.yaml''"]
      port_boundaries [OF k f s(1), of "''65536''" "\<lparr>file = ''pod.yaml'', errs = []\<rparr>" "''pod.yaml''"]
      port_boundaries [OF k f s(1), of "''1''" "\<lparr>file = ''pod.yaml'', errs = []\<rparr>" "''pod.yaml''"]
      port_boundaries [OF k f s(1), of "''65535''" "\<lparr>file = ''pod.yaml'', errs = []\<rparr>" "''pod.yaml''"]
    by (simp add: s o o' add_def fail_def fprintfErr_def d)
qed

section \<open>The tag of a port's scalar\<close>

text \<open>
  Claim C9. The checks of \<open>containerPort\<close> and of \<open>httpGet.port\<close>, in both validators,
  never read the tag: for a scalar node with any tag \<open>t\<close> whose trimmed text is read by
  \<open>strconv.Atoi\<close> as the integer \<open>i\<close>, no check records \<open>must be int\<close>, and each records a
  range violation exactly when \<open>i \<le> 0\<close> or \<open>i \<ge> 65536\<close>.
\<close>

theorem int_checks_ignore_tag:
  assumes "Atoi (TrimSpace v) = Some i"
  shows "validateContainerPort_acc_port ctx (Node ScalarNode t v l cs)
           = Some (if i \<le> 0 \<or> i \<ge> 65536 then add ctx l ''containerPort value out of range''
                   else ctx)
       \<and> validateContainerPort_ff_port f (Node ScalarNode t v l cs)
           = (if i \<le> 0 \<or> i \<ge> 65536 then fail f l ''containerPort value out of range''
              else Passed)
       \<and> validateProbe_acc_port ctx (Node ScalarNode t v l cs)
           = Some (if i \<le> 0 \<or> i \<ge> 65536 then add ctx l ''port value out of range'' else ctx)
       \<and> validateProbe_ff_port f prefix (Node ScalarNode t v l cs)
           = (if i \<le> 0 \<or> i \<ge> 65536
                then fail f l (prefix @ ''.httpGet.port value out of range'')
              else Passed)"
proof -
  let ?p = "Node ScalarNode t v l cs"
  have k: "Kind ?p = ScalarNode" and a: "Atoi (TrimSpace (Value ?p)) = Some i"
    using assms by simp_all
  show ?thesis
    using port_checks_parsed [OF k a] by simp
qed

text \<open>The quoted scalar \<open>"80"\<close>, which the parser tags as a string, passes the four checks.\<close>

theorem int_checks_ignore_tag_witness:
  "Atoi (TrimSpace ''80'') = Some 80
   \<and> validateContainerPort_acc_port \<lparr>file = ''pod.yaml'', errs = []\<rparr> (str_node ''80'' 3)
       = Some \<lparr>file = ''pod.yaml'', errs = []\<rparr>
   \<and> validateContainerPort_ff_port ''pod.yaml'' (str_node ''80'' 3) = Passed
   \<and> validateProbe_acc_port \<lparr>file = ''pod.yaml'', errs = []\<rparr> (str_node ''80'' 3)
       = Some \<lparr>file = ''pod.yaml'', errs = []\<rparr>
   \<and> validateProbe_ff_port ''pod.yaml'' ''containers.livenessProbe'' (str_node ''80'' 3) = Passed"
proof -
  have a: "Atoi (TrimSpace ''80'') = Some 80"
    by code_simp
  show ?thesis
    using int_checks_ignore_tag [OF a, where ctx = "\<lparr>file = ''pod.yaml'', errs = []\<rparr>"
        and t = "''!!str''" and l = 3 and cs = "[]" and f = "''pod.yaml''"
        and prefix = "''containers.livenessProbe''"] a
    by (simp add: str_node_def)
qed

section \<open>The format of an image\<close>

text \<open>
  Claim C7. For an image that is a string scalar, the check of both validators records
  a format violation exactly when the image is not valid in the words of the
  specification: it starts with \<open>registry.bigbrother.io/\<close> and the segment after its
  final \<open>/\<close> contains \<open>:\<close>. This is the step that the rule of a container takes for the
  field \<open>image\<close>. Of the three images of the specification the first is valid, the
  second has no \<open>:\<close> after the final \<open>/\<close>, the third has the wrong prefix.
\<close>

theorem image_check:
  assumes "isStr x"
  shows "validateContainer_acc_image ctx x
           = Some (if image_valid (Value x) then ctx
                   else add ctx (Line x) (''image has invalid format '' @ quoted (Value x)))
       \<and> validateContainer_ff_image f x
           = (if image_valid (Value x) then Passed
              else fail f (Line x) (''containers.image has invalid format '' @ quoted (Value x)))
       \<and> (field n ''image'' = Some (Some x) \<longrightarrow>
            required_field validateContainer_acc_image ''image'' ctx n
              = Some (if image_valid (Value x) then ctx
                      else add ctx (Line x) (''image has invalid format '' @ quoted (Value x)))
          \<and> required_ff f ''containers.image'' ''image'' (validateContainer_ff_image f) n
              = (if image_valid (Value x) then Passed
                 else fail f (Line x)
                        (''containers.image has invalid format '' @ quoted (Value x))))
       \<and> image_valid ''registry.bigbrother.io/app:v1''
       \<and> \<not> image_valid ''registry.bigbrother.io/app''
       \<and> \<not> image_valid ''other.registry/app:v1''"
proof -
  have acc: "validateContainer_acc_image ctx x
           = Some (if image_valid (Value x) then ctx
                   else add ctx (Line x) (''image has invalid format '' @ quoted (Value x)))"
    by (rule validateContainer_acc_image_valid [OF assms])
  have ff: "validateContainer_ff_image f x
           = (if image_valid (Value x) then Passed
              else fail f (Line x) (''containers.image has invalid format '' @ quoted (Value x)))"
    by (rule validateContainer_ff_image_valid [OF assms])
  have v1: "image_valid ''registry.bigbrother.io/app:v1''"
    by code_simp
  have v2: "\<not> image_valid ''registry.bigbrother.io/app''"
    by code_simp
  have v3: "\<not> image_valid ''other.registry/app:v1''"
    by code_simp
  show ?thesis
    by (simp add: acc ff v1 v2 v3 required_field_def required_ff_def getField_eq)
qed

text \<open>The three images, each on line 8 of a container.\<close>

theorem image_check_witness:
  "validateContainer_acc_image \<lparr>file = ''pod.yaml'', errs = []\<rparr>
       (str_node ''registry.bigbrother.io/app:v1'' 8)
     = Some \<lparr>file = ''pod.yaml'', errs = []\<rparr>
   \<and> validateContainer_acc_image \<lparr>file = ''pod.yaml'', errs = []\<rparr>
       (str_node ''registry.bigbrother.io/app'' 8)
     = Some \<lparr>file = ''pod.yaml'',
             errs = [\<lparr>line = 8, msg = ''image has invalid format ''
                                     @ quoted ''registry.bigbrother.io/app''\<rparr>]\<rparr>
   \<and> validateContainer_acc_image \<lparr>file = ''pod.yaml'', errs = []\<rparr>
       (str_node ''other.registry/app:v1'' 8)
     = Some \<lparr>file = ''pod.yaml'',
             errs = [\<lparr>line = 8, msg = ''image has invalid format ''
                                     @ quoted ''other.registry/app:v1''\<rparr>]\<rparr>
   \<and> validateContainer_ff_image ''pod.yaml'' (str_node ''registry.bigbrother.io/app:v1'' 8) = Passed
   \<and> validateContainer_ff_image ''pod.yaml'' (str_node ''registry.bigbrother.io/app'' 8)
     = fail ''pod.yaml'' 8 (''containers.image has invalid format ''
                             @ quoted ''registry.bigbrother.io/app'')
   \<and> validateContainer_ff_image ''pod.yaml'' (str_node ''other.registry/app:v1'' 8)
     = fail ''pod.yaml'' 8 (''containers.image has invalid format ''
                             @ quoted ''other.registry/app:v1'')"
proof -
  have s: "isStr (str_node v 8)" "Value (str_node v 8) = v" "Line (str_node v 8) = 8" for v
    by (simp_all add: str_node_def isStr_def)
  note c = image_check [OF s(1), of "\<lparr>file = ''pod.yaml'', errs = []\<rparr>" _ "''pod.yaml''" "str_node ''x'' 1"]
  have v1: "image_valid ''registry.bigbrother.io/app:v1''"
    and v2: "\<not> image_valid ''registry.bigbrother.io/app''"
    and v3: "\<not> image_valid ''other.registry/app:v1''"
    using c [of "''x''"] by simp_all
  show ?thesis
    using c [of "''registry.bigbrother.io/app:v1''"] c [of "''registry.bigbrother.io/app''"]
      c [of "''other.registry/app:v1''"]
    by (simp add: s v1 v2 v3 add_def)
qed

section \<open>The two validators on the same document\<close>

text \<open>
  Claim C10 says that the two validators accept the same documents. They do not: on the
  document with \<open>cpu: "2"\<close> the fail-fast validator, which reads the text with
  \<open>strconv.Atoi\<close>, returns \<open>nil\<close> and exits with 0, and the accumulating validator, which
  wants the tag \<open>!!int\<close>, records \<open>cpu must be int\<close> and exits with 1.
\<close>

theorem variants_disagree_on_quoted_cpu:
  "run_ff ''pod.yaml'' quoted_cpu_doc = Some ([], 0)
   \<and> run_acc ''pod.yaml'' quoted_cpu_doc = Some ([''pod.yaml:11 cpu must be int'' @ [CHR 0x0A]], 1)"
proof -
  have "validateTopLevel ''pod.yaml'' quoted_cpu_doc = Passed"
    by code_simp
  moreover have "validateTop \<lparr>file = ''pod.yaml'', errs = []\<rparr> quoted_cpu_doc
      = Some \<lparr>file = ''pod.yaml'', errs = [\<lparr>line = 11, msg = ''cpu must be int''\<rparr>]\<rparr>"
    by code_simp
  moreover have "fmt_d 11 = ''11''"
    by code_simp
  ultimately show ?thesis
    by (simp add: run_ff_def run_acc_def flush_def report_line_def)
qed

text \<open>
  Claim C10 as amended: on a document as the parser builds it, in which every entry of
  every resource-quantity set has a string scalar as its key and, under the key \<open>cpu\<close>,
  a value that carries the tag \<open>!!int\<close> exactly when it is a scalar whose trimmed text
  \<open>strconv.Atoi\<close> reads, both validators return, the fail-fast one returns \<open>nil\<close> exactly
  when the accumulating one records nothing, and the two processes exit with the same
  status.
\<close>

theorem variants_agree:
  assumes "wf_node doc" and "rr_consistent doc"
  shows "\<exists>out_ff out_acc code ctx'.
           run_ff f doc = Some (out_ff, code) \<and> run_acc b doc = Some (out_acc, code)
           \<and> validateTop \<lparr>file = b, errs = []\<rparr> doc = Some ctx'
           \<and> (validateTopLevel f doc = Passed \<longleftrightarrow> errs ctx' = [])
           \<and> (code = 0 \<longleftrightarrow> errs ctx' = [])"
proof -
  have a: "agree (validateTopLevel f doc) (errors validateTop doc)"
    using assms by (intro agree_validateTop) (auto simp: rr_consistent_def list_all_iff)
  then obtain l where l: "errors validateTop doc = Some l"
    by (auto simp: agree_def)
  let ?ctx = "\<lparr>file = b, errs = l\<rparr>"
  have run: "validateTop \<lparr>file = b, errs = []\<rparr> doc = Some ?ctx"
    using yieldsD [OF validateTop_framed, of "\<lparr>file = b, errs = []\<rparr>" doc] by (simp add: l)
  have p: "validateTopLevel f doc = Passed \<longleftrightarrow> l = []"
    and q: "validateTopLevel f doc \<noteq> Panicked"
    using a by (simp_all add: agree_def l)
  show ?thesis
  proof (cases "validateTopLevel f doc")
    case Passed
    then show ?thesis
      using p run by (simp add: run_ff_def run_acc_def flush_def)
  next
    case (Failed w e)
    then show ?thesis
      using p run by (simp add: run_ff_def run_acc_def flush_def)
  next
    case Panicked
    then show ?thesis using q by simp
  qed
qed

text \<open>The scenario's document, which both accept, and the one with a scalar \<open>spec\<close>, which both reject.\<close>

theorem variants_agree_witness:
  "wf_node pod_doc \<and> rr_consistent pod_doc
   \<and> wf_node scalar_spec_doc \<and> rr_consistent scalar_spec_doc
   \<and> (\<exists>out_ff out_acc code.
         run_ff ''pod.yaml'' pod_doc = Some (out_ff, code)
         \<and> run_acc ''pod.yaml'' pod_doc = Some (out_acc, code) \<and> code = 0)
   \<and> (\<exists>out_ff out_acc code.
         run_ff ''pod.yaml'' scalar_spec_doc = Some (out_ff, code)
         \<and> run_acc ''pod.yaml'' scalar_spec_doc = Some (out_acc, code) \<and> code = 1)"
proof -
  have w1: "wf_node pod_doc" and r1: "rr_consistent pod_doc"
    and w2: "wf_node scalar_spec_doc" and r2: "rr_consistent scalar_spec_doc"
    by code_simp+
  have p1: "validateTopLevel ''pod.yaml'' pod_doc = Passed"
    by code_simp
  have p2: "run_ff ''pod.yaml'' scalar_spec_doc
              = Some ([''pod.yaml:5 spec must be object'' @ [CHR 0x0A]], 1)"
    by code_simp
  show ?thesis
    using variants_agree [OF w1 r1, of "''pod.yaml''" "''pod.yaml''"]
      variants_agree [OF w2 r2, of "''pod.yaml''" "''pod.yaml''"] p1 p2
    by (auto simp: w1 r1 w2 r2 run_ff_def)
qed

section \<open>Where the reports are written\<close>

text \<open>
  Claim C4 says that all error output is produced by the finalize step, after the
  validation pass. The fail-fast validator has no such step: the rule that finds the
  violation writes the line itself, through \<open>fail\<close> or \<open>failRequired\<close>, and \<open>main\<close> only
  turns the returned error into the exit status. On the document with \<open>spec: "x"\<close> the
  line is written by \<open>validateSpec\<close>.
\<close>

theorem fail_fast_writes_during_the_pass:
  "validateSpec_ff ''pod.yaml'' (str_node ''x'' 5)
     = Failed (''pod.yaml:5 spec must be object'' @ [CHR 0x0A]) ''validation failed''
   \<and> validateTopLevel ''pod.yaml'' scalar_spec_doc
     = Failed (''pod.yaml:5 spec must be object'' @ [CHR 0x0A]) ''validation failed''
   \<and> run_ff ''pod.yaml'' scalar_spec_doc = Some ([''pod.yaml:5 spec must be object'' @ [CHR 0x0A]], 1)"
  by code_simp

text \<open>
  Claim C4 as amended. In the accumulating validator \<open>flush\<close> writes one line for each
  recorded error, in the order of recording, as \<open><file>:<line> <message>\<close> when the line
  is positive and \<open><file>: <message>\<close> otherwise, and returns a status that is not 0
  exactly when an error was recorded; on a document of the parser the validation pass
  returns and what the process writes is what \<open>flush\<close> writes for the recorded
  errors. In the fail-fast validator, on a document of the parser, either the pass
  returns \<open>nil\<close>, nothing is written and the status is 0, or one line of the same format
  is written during the pass and the status is 1.
\<close>

theorem reports_and_status:
  "fst (flush c) = map (report_line (file c)) (errs c)
   \<and> (snd (flush c) \<noteq> 0 \<longleftrightarrow> errs c \<noteq> [])
   \<and> report_line f \<lparr>line = l, msg = t\<rparr>
       = (if 0 < l then f @ '':'' @ fmt_d l @ '' '' @ t @ [CHR 0x0A] else f @ '': '' @ t @ [CHR 0x0A])
   \<and> (wf_node doc \<longrightarrow>
        (\<exists>ctx'. validateTop \<lparr>file = b, errs = []\<rparr> doc = Some ctx'
           \<and> run_acc b doc = Some (map (report_line b) (errs ctx'), if errs ctx' = [] then 0 else 1))
        \<and> (validateTopLevel f doc = Passed \<and> run_ff f doc = Some ([], 0)
            \<or> (\<exists>e w r. validateTopLevel f doc = Failed w r \<and> w = report_line f e
                  \<and> run_ff f doc = Some ([w], 1))))"
proof -
  have acc: "\<exists>ctx'. validateTop \<lparr>file = b, errs = []\<rparr> doc = Some ctx'
           \<and> run_acc b doc = Some (map (report_line b) (errs ctx'), if errs ctx' = [] then 0 else 1)"
    if w: "wf_node doc"
  proof -
    obtain l where "validateTop \<lparr>file = b, errs = []\<rparr> doc = Some \<lparr>file = b, errs = l\<rparr>"
      using validateTop_returns [OF w, of "\<lparr>file = b, errs = []\<rparr>"] by auto
    then show ?thesis
      by (simp add: run_acc_def flush_def)
  qed
  have ff: "validateTopLevel f doc = Passed \<and> run_ff f doc = Some ([], 0)
            \<or> (\<exists>e w r. validateTopLevel f doc = Failed w r \<and> w = report_line f e
                  \<and> run_ff f doc = Some ([w], 1))"
    if "wf_node doc"
  proof (cases "validateTopLevel f doc")
    case Passed
    then show ?thesis by (simp add: run_ff_def)
  next
    case (Failed w r)
    then have "missing_report f w r \<or> located_report f doc w r"
      using sound_ff_validateTopLevel [of f doc] by (simp add: sound_ff_def)
    then have "\<exists>e. w = report_line f e"
    proof
      assume "missing_report f w r"
      then obtain k where "w = f @ '': '' @ k @ '' is required'' @ [CHR 0x0A]"
        by (auto simp: missing_report_def list_ex_iff)
      then have "w = report_line f \<lparr>line = 0, msg = k @ '' is required''\<rparr>"
        by (simp add: report_line_def)
      then show ?thesis by blast
    next
      assume "located_report f doc w r"
      then show ?thesis
        by (auto simp: located_report_def report_line_fprintfErr)
    qed
    then show ?thesis
      using Failed by (auto simp: run_ff_def)
  next
    case Panicked
    then show ?thesis
      using safe_validateTopLevel [OF that, of f] by simp
  qed
  show ?thesis
    using acc ff by (simp add: flush_def report_line_def)
qed

text \<open>The document with \<open>spec: "x"\<close>: two lines from \<open>flush\<close>, one line from the fail-fast validator.\<close>

theorem reports_and_status_witness:
  "wf_node scalar_spec_doc
   \<and> run_acc ''pod.yaml'' scalar_spec_doc
       = Some ([''pod.yaml:5 spec must be object'' @ [CHR 0x0A],
                ''pod.yaml: containers is required'' @ [CHR 0x0A]], 1)
   \<and> (\<exists>e. run_ff ''pod.yaml'' scalar_spec_doc = Some ([report_line ''pod.yaml'' e], 1))"
proof -
  have w: "wf_node scalar_spec_doc"
    by code_simp
  have a: "run_acc ''pod.yaml'' scalar_spec_doc
       = Some ([''pod.yaml:5 spec must be object'' @ [CHR 0x0A],
                ''pod.yaml: containers is required'' @ [CHR 0x0A]], 1)"
    by code_simp
  have f: "validateTopLevel ''pod.yaml'' scalar_spec_doc \<noteq> Passed"
    by code_simp
  show ?thesis
    using reports_and_status [where f = "''pod.yaml''" and b = "''pod.yaml''"
        and doc = scalar_spec_doc and c = "\<lparr>file = [], errs = []\<rparr>" and l = 0 and t = "[]"] w a f
    by auto
qed

section \<open>Missing fields and located errors\<close>



section \<open>The order of the document's checks\<close>

text \<open>
  Claim C8 says that every error recorded for \<open>metadata\<close> precedes every error
  recorded for \<open>spec\<close>. The accumulating validator checks the shape and the \<open>os\<close> of
  \<open>spec\<close> before \<open>metadata\<close>, and \<open>spec.containers\<close> after it: on the document with an
  unknown \<open>os\<close> and no \<open>metadata.name\<close> the error of \<open>spec\<close> comes first.
\<close>

theorem spec_error_before_metadata_error:
  "validateTop \<lparr>file = ''pod.yaml'', errs = []\<rparr> bad_os_doc
     = Some \<lparr>file = ''pod.yaml'',
             errs = [\<lparr>line = 6, msg = ''os has unsupported value '' @ quoted ''mac''\<rparr>,
                     \<lparr>line = 0, msg = ''name is required''\<rparr>]\<rparr>
   \<and> validateSpec_acc \<lparr>file = ''pod.yaml'', errs = []\<rparr> bad_os_spec
     = Some \<lparr>file = ''pod.yaml'',
             errs = [\<lparr>line = 6, msg = ''os has unsupported value '' @ quoted ''mac''\<rparr>]\<rparr>
   \<and> validateMetadata_acc \<lparr>file = ''pod.yaml'', errs = []\<rparr> nameless_metadata
     = Some \<lparr>file = ''pod.yaml'', errs = [\<lparr>line = 0, msg = ''name is required''\<rparr>]\<rparr>"
  by code_simp

text \<open>
  Claim C8 as amended. On a document of the parser that is a mapping with \<open>spec\<close> and
  \<open>metadata\<close>, the accumulating validator returns with the errors of \<open>apiVersion\<close>, of
  \<open>kind\<close>, of \<open>validateSpec\<close> (the shape and \<open>os\<close> of \<open>spec\<close>), of \<open>validateMetadata\<close>
  and of \<open>validateSpecContainers\<close>, in this order: the errors of \<open>metadata\<close> come
  after those of the shape and \<open>os\<close> of \<open>spec\<close> and before those of the containers.
  The fail-fast validator checks \<open>apiVersion\<close>, \<open>kind\<close>, \<open>metadata\<close> and then \<open>spec\<close>, and
  stops at the first that fails.
\<close>

theorem document_order:
  assumes "wf_node n" and "Kind n = MappingNode" and "field n ''spec'' = Some (Some s)"
    and "field n ''metadata'' = Some (Some m)"
  shows "(\<exists>a k sp me co.
            validateTop ctx n = Some (ctx\<lparr>errs := errs ctx @ a @ k @ sp @ me @ co\<rparr>)
            \<and> required_errors validateTop_apiVersion ''apiVersion'' n = Some a
            \<and> required_errors validateTop_kind ''kind'' n = Some k
            \<and> validateSpec_acc \<lparr>file = b, errs = []\<rparr> s = Some \<lparr>file = b, errs = sp\<rparr>
            \<and> validateMetadata_acc \<lparr>file = b, errs = []\<rparr> m = Some \<lparr>file = b, errs = me\<rparr>
            \<and> validateSpecContainers \<lparr>file = b, errs = []\<rparr> s = Some \<lparr>file = b, errs = co\<rparr>)
       \<and> validateTopLevel f n =
           and_then (required_ff f ''apiVersion'' ''apiVersion'' (validateTopLevel_apiVersion f) n)
          (and_then (required_ff f ''kind'' ''kind'' (validateTopLevel_kind f) n)
          (and_then (validateMetadata_ff f m) (validateSpec_ff f s)))"
proof -
  obtain l where l: "errors validateTop n = Some l"
    and run: "validateTop ctx n = Some (ctx\<lparr>errs := errs ctx @ l\<rparr>)"
    using validateTop_returns [OF assms(1), of ctx] by auto
  obtain a k sp me co where parts: "l = a @ k @ sp @ me @ co"
    "required_errors validateTop_apiVersion ''apiVersion'' n = Some a"
    "required_errors validateTop_kind ''kind'' n = Some k"
    "errors validateSpec_acc s = Some sp" "errors validateMetadata_acc m = Some me"
    "errors validateSpecContainers s = Some co"
    using l unfolding validateTop_found [OF assms(2,3,4)] by (auto simp: seq_emits_Some)
  have "validateSpec_acc \<lparr>file = b, errs = []\<rparr> s = Some \<lparr>file = b, errs = sp\<rparr>"
    using yieldsD [OF validateSpec_acc_framed, of "\<lparr>file = b, errs = []\<rparr>" s] parts by simp
  moreover
  have "validateMetadata_acc \<lparr>file = b, errs = []\<rparr> m = Some \<lparr>file = b, errs = me\<rparr>"
    using yieldsD [OF validateMetadata_acc_framed, of "\<lparr>file = b, errs = []\<rparr>" m] parts by simp
  moreover
  have "validateSpecContainers \<lparr>file = b, errs = []\<rparr> s = Some \<lparr>file = b, errs = co\<rparr>"
    using yieldsD [OF validateSpecContainers_framed, of "\<lparr>file = b, errs = []\<rparr>" s] parts by simp
  ultimately show ?thesis
    using run parts validateTopLevel_found [OF assms(2,3,4)] by auto
qed

text \<open>The same document: the fail-fast validator reports the missing \<open>metadata.name\<close>.\<close>

theorem document_order_witness:
  "wf_node bad_os_doc \<and> Kind bad_os_doc = MappingNode
   \<and> field bad_os_doc ''spec'' = Some (Some bad_os_spec)
   \<and> field bad_os_doc ''metadata'' = Some (Some nameless_metadata)
   \<and> (\<exists>a k sp me co.
         validateTop \<lparr>file = ''pod.yaml'', errs = []\<rparr> bad_os_doc
           = Some \<lparr>file = ''pod.yaml'', errs = a @ k @ sp @ me @ co\<rparr>
         \<and> validateSpec_acc \<lparr>file = ''pod.yaml'', errs = []\<rparr> bad_os_spec
           = Some \<lparr>file = ''pod.yaml'', errs = sp\<rparr>
         \<and> validateMetadata_acc \<lparr>file = ''pod.yaml'', errs = []\<rparr> nameless_metadata
           = Some \<lparr>file = ''pod.yaml'', errs = me\<rparr>)
   \<and> validateTopLevel ''pod.yaml'' bad_os_doc
     = Failed (''pod.yaml: metadata.name is required'' @ [CHR 0x0A]) ''required field missing''"
proof -
  have w: "wf_node bad_os_doc" and k: "Kind bad_os_doc = MappingNode"
    and s: "field bad_os_doc ''spec'' = Some (Some bad_os_spec)"
    and m: "field bad_os_doc ''metadata'' = Some (Some nameless_metadata)"
    by code_simp+
  have f: "validateTopLevel ''pod.yaml'' bad_os_doc
     = Failed (''pod.yaml: metadata.name is required'' @ [CHR 0x0A]) ''required field missing''"
    by code_simp
  obtain a k' sp me co
    where "validateTop \<lparr>file = ''pod.yaml'', errs = []\<rparr> bad_os_doc
             = Some \<lparr>file = ''pod.yaml'', errs = a @ k' @ sp @ me @ co\<rparr>"
      and "validateSpec_acc \<lparr>file = ''pod.yaml'', errs = []\<rparr> bad_os_spec
             = Some \<lparr>file = ''pod.yaml'', errs = sp\<rparr>"
      and "validateMetadata_acc \<lparr>file = ''pod.yaml'', errs = []\<rparr> nameless_metadata
             = Some \<lparr>file = ''pod.yaml'', errs = me\<rparr>"
    using document_order [OF w k s m, where ctx = "\<lparr>file = ''pod.yaml'', errs = []\<rparr>"
        and b = "''pod.yaml''" and f = "''pod.yaml''"]
    by auto
  then have "\<exists>a k sp me co.
         validateTop \<lparr>file = ''pod.yaml'', errs = []\<rparr> bad_os_doc
           = Some \<lparr>file = ''pod.yaml'', errs = a @ k @ sp @ me @ co\<rparr>
         \<and> validateSpec_acc \<lparr>file = ''pod.yaml'', errs = []\<rparr> bad_os_spec
           = Some \<lparr>file = ''pod.yaml'', errs = sp\<rparr>
         \<and> validateMetadata_acc \<lparr>file = ''pod.yaml'', errs = []\<rparr> nameless_metadata
           = Some \<lparr>file = ''pod.yaml'', errs = me\<rparr>"
    by blast
  then show ?thesis
    using w k s m f by simp
qed

section \<open>An empty sequence of containers\<close>

text \<open>
  Claim C5 says that for every document whose \<open>spec.containers\<close> is an empty sequence
  exactly one range violation is recorded. The fail-fast validator stops at the first
  violation: on the document without \<open>metadata\<close>, whose \<open>spec.containers\<close> is empty, it
  reports that \<open>metadata\<close> is required, and no range violation.
\<close>

theorem fail_fast_stops_before_containers:
  "field no_metadata_doc ''spec''
     = Some (Some (map_node 4 [str_node ''os'' 4, str_node ''mac'' 4,
                               str_node ''containers'' 5, seq_node 5 []]))
   \<and> field (map_node 4 [str_node ''os'' 4, str_node ''mac'' 4,
                        str_node ''containers'' 5, seq_node 5 []]) ''containers''
     = Some (Some (seq_node 5 []))
   \<and> validateTopLevel ''pod.yaml'' no_metadata_doc
     = Failed (''pod.yaml: metadata is required'' @ [CHR 0x0A]) ''required field missing''
   \<and> run_ff ''pod.yaml'' no_metadata_doc
     = Some ([''pod.yaml: metadata is required'' @ [CHR 0x0A]], 1)"
  by code_simp

text \<open>
  Claim C5 as amended. On a document of the parser that is a mapping whose
  \<open>spec.containers\<close> is an empty sequence, the accumulating validator returns, the error
  \<open>containers value out of range\<close> at the line of \<open>containers\<close> is the last one it
  records, no error before it has that message, and \<open>validateSpecContainers\<close> appends
  nothing else, so that no rule of a container has run. The fail-fast validator rejects
  the document; its check of \<open>containers\<close> fails with the range violation without
  looking at an element, and this is what it reports when \<open>apiVersion\<close>, \<open>kind\<close>,
  \<open>metadata\<close> and \<open>spec.os\<close> pass.
\<close>

theorem empty_containers:
  assumes "wf_node n" and "Kind n = MappingNode" and "field n ''spec'' = Some (Some s)"
    and "field s ''containers'' = Some (Some cs)" and "Kind cs = SequenceNode"
    and "Content cs = []"
  shows "(\<exists>pre. validateTop ctx n
                  = Some (ctx\<lparr>errs := errs ctx @ pre
                                    @ [\<lparr>line = Line cs, msg = ''containers value out of range''\<rparr>]\<rparr>)
               \<and> list_all (\<lambda>e. msg e \<noteq> ''containers value out of range'') pre)
       \<and> validateSpecContainers ctx s = Some (add ctx (Line cs) ''containers value out of range'')
       \<and> validateSpec_ff_containers f cs = fail f (Line cs) ''spec.containers value out of range''
       \<and> validateTopLevel f n \<noteq> Passed
       \<and> (required_ff f ''apiVersion'' ''apiVersion'' (validateTopLevel_apiVersion f) n = Passed
          \<and> required_ff f ''kind'' ''kind'' (validateTopLevel_kind f) n = Passed
          \<and> required_ff f ''metadata'' ''metadata'' (validateMetadata_ff f) n = Passed
          \<and> optional_ff ''os'' (validateSpec_ff_os f) s = Passed
          \<longrightarrow> validateTopLevel f n = fail f (Line cs) ''spec.containers value out of range'')"
proof -
  have ks: "Kind s = MappingNode"
    using field_found [OF assms(4)] by simp
  have cont: "validateSpecContainers_containers c cs
                = Some (add c (Line cs) ''containers value out of range'')" for c
    using assms(5,6) by (simp add: validateSpecContainers_containers_def)
  have sc: "validateSpecContainers ctx s = Some (add ctx (Line cs) ''containers value out of range'')"
    using assms(4) cont by (simp add: validateSpecContainers_def required_field_def)
  have co: "optional_errors validateSpecContainers ''spec'' n
              = Some (one (Line cs) ''containers value out of range'')"
    using assms(3,4,5,6)
    by (simp add: optional_errors_def validateSpecContainers_errors required_errors_def
          validateSpecContainers_containers_errors)
  obtain l where l: "errors validateTop n = Some l"
    and run: "validateTop ctx n = Some (ctx\<lparr>errs := errs ctx @ l\<rparr>)"
    using validateTop_returns [OF assms(1), of ctx] by auto
  have q: "quiet (seq_emits (required_errors validateTop_apiVersion ''apiVersion'' n)
          (seq_emits (required_errors validateTop_kind ''kind'' n)
          (seq_emits (required_errors validateSpec_acc ''spec'' n)
                     (required_errors validateMetadata_acc ''metadata'' n))))"
    by (intro quiet_seq quiet_required quiet_top_apiVersion quiet_top_kind quiet_validateSpec
          quiet_validateMetadata) simp_all
  obtain a k sp me where parts: "l = a @ k @ sp @ me @ one (Line cs) ''containers value out of range''"
    "required_errors validateTop_apiVersion ''apiVersion'' n = Some a"
    "required_errors validateTop_kind ''kind'' n = Some k"
    "required_errors validateSpec_acc ''spec'' n = Some sp"
    "required_errors validateMetadata_acc ''metadata'' n = Some me"
    using l assms(2) unfolding validateTop_errors co by (auto simp: seq_emits_Some)
  have "list_all (\<lambda>e. msg e \<noteq> ''containers value out of range'') (a @ k @ sp @ me)"
    using q parts(2-5) by (simp add: quiet_def seq_emits_def list_all_iff)
  then have acc: "\<exists>pre. validateTop ctx n
                  = Some (ctx\<lparr>errs := errs ctx @ pre
                                    @ [\<lparr>line = Line cs, msg = ''containers value out of range''\<rparr>]\<rparr>)
               \<and> list_all (\<lambda>e. msg e \<noteq> ''containers value out of range'') pre"
    using run parts(1) by (intro exI [of _ "a @ k @ sp @ me"]) (simp add: one_def)
  have fc: "validateSpec_ff_containers f cs = fail f (Line cs) ''spec.containers value out of range''"
    using assms(5,6) by (simp add: validateSpec_ff_containers_def)
  have spec: "validateSpec_ff f s
                = and_then (optional_ff ''os'' (validateSpec_ff_os f) s)
                    (fail f (Line cs) ''spec.containers value out of range'')"
    using ks assms(4) fc by (simp add: validateSpec_ff_def required_ff_def getField_eq)
  have top: "validateTopLevel f n =
           and_then (required_ff f ''apiVersion'' ''apiVersion'' (validateTopLevel_apiVersion f) n)
          (and_then (required_ff f ''kind'' ''kind'' (validateTopLevel_kind f) n)
          (and_then (required_ff f ''metadata'' ''metadata'' (validateMetadata_ff f) n)
          (and_then (optional_ff ''os'' (validateSpec_ff_os f) s)
                    (fail f (Line cs) ''spec.containers value out of range''))))"
    using assms(2,3) spec by (simp add: validateTopLevel_def required_ff_def [of f "''spec''"] getField_eq)
  have np: "validateTopLevel f n \<noteq> Passed"
    unfolding top by (simp add: and_then_Passed_iff fail_not_Passed)
  show ?thesis
    using acc sc fc np top by (simp add: and_then_Passed)
qed

text \<open>The document without \<open>metadata\<close>: the range violation is the last of three errors.\<close>

theorem empty_containers_witness:
  "wf_node no_metadata_doc \<and> Kind no_metadata_doc = MappingNode
   \<and> Kind (seq_node 5 []) = SequenceNode \<and> Content (seq_node 5 []) = []
   \<and> (\<exists>pre. validateTop \<lparr>file = ''pod.yaml'', errs = []\<rparr> no_metadata_doc
               = Some \<lparr>file = ''pod.yaml'',
                       errs = pre @ [\<lparr>line = 5, msg = ''containers value out of range''\<rparr>]\<rparr>
             \<and> list_all (\<lambda>e. msg e \<noteq> ''containers value out of range'') pre)
   \<and> validateTopLevel ''pod.yaml'' no_metadata_doc \<noteq> Passed"
proof -
  let ?s = "map_node 4 [str_node ''os'' 4, str_node ''mac'' 4,
                        str_node ''containers'' 5, seq_node 5 []]"
  have w: "wf_node no_metadata_doc" and k: "Kind no_metadata_doc = MappingNode"
    and s: "field no_metadata_doc ''spec'' = Some (Some ?s)"
    and c: "field ?s ''containers'' = Some (Some (seq_node 5 []))"
    and q: "Kind (seq_node 5 []) = SequenceNode" and e: "Content (seq_node 5 []) = []"
    and l: "Line (seq_node 5 []) = 5"
    by code_simp+
  show ?thesis
    using empty_containers [OF w k s c q e, where ctx = "\<lparr>file = ''pod.yaml'', errs = []\<rparr>"
        and f = "''pod.yaml''"] w k q e
    by (simp add: l)
qed

end
